theory Spec2Isabelle
  imports Main "HOL-Library.Multiset" "HOL-Library.Product_Lexorder"
begin

section \<open>The ledger store of \<^verbatim>\<open>src/db/database.py\<close>\<close>

text \<open>
  The module keeps four SQLite tables (\<^verbatim>\<open>CREATE_SQL\<close>) and a class \<^verbatim>\<open>Database\<close>
  whose methods each open a connection, run a few statements and commit or roll back.
  The embedding keeps one record per table row, one record for the whole store, and one
  HOL function per method. A method takes the store at \<^verbatim>\<open>BEGIN\<close> and returns its
  outcome together with the store it leaves behind: the working copy after
  \<^verbatim>\<open>commit\<close>, the store at \<^verbatim>\<open>BEGIN\<close> after \<^verbatim>\<open>rollback\<close> or after an exception
  (the \<^verbatim>\<open>finally\<close> clause closes the connection, which discards what was not committed).

  Integers are Python's and are modelled by \<open>int\<close>; SQLite would switch to floating
  point beyond 64 bits, which no amount of this service reaches. The text columns
  \<^verbatim>\<open>created_at\<close> and \<^verbatim>\<open>updated_at\<close> hold \<^verbatim>\<open>datetime('now')\<close>, whose text order is
  the order of time; they are modelled by the number of seconds, a \<open>nat\<close>.
\<close>

subsection \<open>Rows and tables\<close>

text \<open>Column \<^verbatim>\<open>type\<close> of \<^verbatim>\<open>transactions\<close>: the four strings its CHECK constraint admits,
  \<^verbatim>\<open>'purchase'\<close>, \<^verbatim>\<open>'gift_in'\<close>, \<^verbatim>\<open>'gift_out'\<close>, \<^verbatim>\<open>'refund'\<close>.\<close>

datatype tx_type = Purchase | GiftIn | GiftOut | Refund

text \<open>The four texts the methods store in column \<^verbatim>\<open>description\<close>: two constants and two
  f-strings over the amount and the other party's id. The constructor stands for the
  formatted Russian text.\<close>

datatype description =
    PurchaseText
  | GiftOutText int int
  | GiftInText int int
  | RefundText

record user_row =
  u_user_id :: int
  u_username :: "string option"
  u_balance :: int
  u_created_at :: nat
  u_updated_at :: nat

record payment_row =
  p_id :: nat
  p_user_id :: int
  p_amount :: int
  p_currency :: string
  p_charge_id :: string
  p_refunded :: bool
  p_created_at :: nat

record transfer_row =
  f_id :: nat
  f_from_user_id :: int
  f_to_user_id :: int
  f_amount :: int
  f_created_at :: nat

record transaction_row =
  t_id :: nat
  t_user_id :: int
  t_type :: tx_type
  t_amount :: int
  t_related_user_id :: "int option"
  t_charge_id :: "string option"
  t_description :: "description option"
  t_balance_after :: "int option"
  t_created_at :: nat

text \<open>The store: the four tables, each a list of rows in the order of insertion, and for
  each AUTOINCREMENT table the largest id ever given out (SQLite's \<^verbatim>\<open>sqlite_sequence\<close>).\<close>

record db =
  users :: "user_row list"
  payments :: "payment_row list"
  transfers :: "transfer_row list"
  transactions :: "transaction_row list"
  seq_payments :: nat
  seq_transfers :: nat
  seq_transactions :: nat

text \<open>The store after \<^verbatim>\<open>Database.init\<close> on a new file.\<close>

definition init_db :: db where
  "init_db = \<lparr>users = [], payments = [], transfers = [], transactions = [],
              seq_payments = 0, seq_transfers = 0, seq_transactions = 0\<rparr>"

datatype error = ValueError string | IntegrityError

subsection \<open>Statements\<close>

definition find_user :: "db \<Rightarrow> int \<Rightarrow> user_row option" where
  "find_user s uid = find (\<lambda>u. u_user_id u = uid) (users s)"

definition user_exists :: "db \<Rightarrow> int \<Rightarrow> bool" where
  "user_exists s uid = list_ex (\<lambda>u. u_user_id u = uid) (users s)"

text \<open>\<^verbatim>\<open>_ensure_user_tx\<close>: \<^verbatim>\<open>INSERT INTO users(user_id, username) VALUES(?, ?) ON CONFLICT(user_id)
  DO UPDATE SET username=COALESCE(excluded.username, users.username), updated_at=datetime('now')\<close>.
  \<^verbatim>\<open>COALESCE\<close> takes its first argument unless that is NULL.\<close>

definition coalesce :: "'a option \<Rightarrow> 'a option \<Rightarrow> 'a option" where
  "coalesce a b = (case a of Some x \<Rightarrow> Some x | None \<Rightarrow> b)"

definition ensure_user_tx :: "nat \<Rightarrow> db \<Rightarrow> int \<Rightarrow> string option \<Rightarrow> db" where
  "ensure_user_tx now s uid uname =
     (if user_exists s uid
      then s\<lparr>users := map (\<lambda>u. if u_user_id u = uid
                                then u\<lparr>u_username := coalesce uname (u_username u),
                                       u_updated_at := now\<rparr>
                                else u) (users s)\<rparr>
      else s\<lparr>users := users s @ [\<lparr>u_user_id = uid, u_username = uname, u_balance = 0,
                                    u_created_at = now, u_updated_at = now\<rparr>]\<rparr>)"

text \<open>\<^verbatim>\<open>_get_balance_tx\<close>: \<^verbatim>\<open>SELECT balance FROM users WHERE user_id=?\<close>, 0 without a row.\<close>

definition get_balance_tx :: "db \<Rightarrow> int \<Rightarrow> int" where
  "get_balance_tx s uid = (case find_user s uid of Some u \<Rightarrow> u_balance u | None \<Rightarrow> 0)"

text \<open>\<^verbatim>\<open>UPDATE users SET balance = balance + ?, updated_at=datetime('now') WHERE user_id=?\<close>;
  the debit passes the negated amount.\<close>

definition update_balance :: "nat \<Rightarrow> db \<Rightarrow> int \<Rightarrow> int \<Rightarrow> db" where
  "update_balance now s uid delta =
     s\<lparr>users := map (\<lambda>u. if u_user_id u = uid
                          then u\<lparr>u_balance := u_balance u + delta, u_updated_at := now\<rparr>
                          else u) (users s)\<rparr>"

text \<open>\<^verbatim>\<open>INSERT INTO payments(user_id, amount, currency, charge_id, refunded) VALUES(?, ?, 'XTR', ?, 0)\<close>.
  The statement raises \<^verbatim>\<open>IntegrityError\<close> when the foreign key on \<^verbatim>\<open>user_id\<close> or the
  UNIQUE constraint on \<^verbatim>\<open>charge_id\<close> fails (\<^verbatim>\<open>PRAGMA foreign_keys = ON\<close>).\<close>

definition push_payment :: "nat \<Rightarrow> db \<Rightarrow> int \<Rightarrow> int \<Rightarrow> string \<Rightarrow> db" where
  "push_payment now s uid amount cid =
     s\<lparr>payments := payments s @
            [\<lparr>p_id = Suc (seq_payments s), p_user_id = uid, p_amount = amount,
              p_currency = ''XTR'', p_charge_id = cid, p_refunded = False,
              p_created_at = now\<rparr>],
       seq_payments := Suc (seq_payments s)\<rparr>"

definition insert_payment :: "nat \<Rightarrow> db \<Rightarrow> int \<Rightarrow> int \<Rightarrow> string \<Rightarrow> error + db" where
  "insert_payment now s uid amount cid =
     (if \<not> user_exists s uid then Inl IntegrityError
      else if list_ex (\<lambda>p. p_charge_id p = cid) (payments s) then Inl IntegrityError
      else Inr (push_payment now s uid amount cid))"

text \<open>\<^verbatim>\<open>INSERT INTO transfers(from_user_id, to_user_id, amount) VALUES(?, ?, ?)\<close>, with
  \<^verbatim>\<open>lastrowid\<close>.\<close>

definition push_transfer :: "nat \<Rightarrow> db \<Rightarrow> int \<Rightarrow> int \<Rightarrow> int \<Rightarrow> db" where
  "push_transfer now s from_user to_user amount =
     s\<lparr>transfers := transfers s @
            [\<lparr>f_id = Suc (seq_transfers s), f_from_user_id = from_user,
              f_to_user_id = to_user, f_amount = amount, f_created_at = now\<rparr>],
       seq_transfers := Suc (seq_transfers s)\<rparr>"

definition insert_transfer :: "nat \<Rightarrow> db \<Rightarrow> int \<Rightarrow> int \<Rightarrow> int \<Rightarrow> error + (nat \<times> db)" where
  "insert_transfer now s from_user to_user amount =
     (if \<not> user_exists s from_user \<or> \<not> user_exists s to_user then Inl IntegrityError
      else Inr (Suc (seq_transfers s), push_transfer now s from_user to_user amount))"

text \<open>\<^verbatim>\<open>_insert_transaction\<close>. The statement raises \<^verbatim>\<open>IntegrityError\<close> when a foreign key
  fails (\<^verbatim>\<open>user_id\<close>, and \<^verbatim>\<open>related_user_id\<close> unless NULL) or when the unique index
  \<^verbatim>\<open>idx_transactions_charge_id ON transactions(charge_id) WHERE charge_id IS NOT NULL\<close>
  already holds the charge id.\<close>

definition new_transaction ::
  "nat \<Rightarrow> db \<Rightarrow> int \<Rightarrow> tx_type \<Rightarrow> int \<Rightarrow> int option \<Rightarrow> string option \<Rightarrow>
   description option \<Rightarrow> int option \<Rightarrow> transaction_row" where
  "new_transaction now s uid tx amount related_user_id charge_id descr balance_after =
     \<lparr>t_id = Suc (seq_transactions s), t_user_id = uid, t_type = tx,
      t_amount = amount, t_related_user_id = related_user_id,
      t_charge_id = charge_id, t_description = descr,
      t_balance_after = balance_after, t_created_at = now\<rparr>"

definition push_transaction :: "db \<Rightarrow> transaction_row \<Rightarrow> db" where
  "push_transaction s row =
     s\<lparr>transactions := transactions s @ [row], seq_transactions := Suc (seq_transactions s)\<rparr>"

definition insert_transaction ::
  "nat \<Rightarrow> db \<Rightarrow> int \<Rightarrow> tx_type \<Rightarrow> int \<Rightarrow> int option \<Rightarrow> string option \<Rightarrow>
   description option \<Rightarrow> int option \<Rightarrow> error + db" where
  "insert_transaction now s uid tx amount related_user_id charge_id descr balance_after =
     (if \<not> user_exists s uid then Inl IntegrityError
      else if (case related_user_id of Some r \<Rightarrow> \<not> user_exists s r | None \<Rightarrow> False)
        then Inl IntegrityError
      else if (case charge_id of
                 Some c \<Rightarrow> list_ex (\<lambda>t. t_charge_id t = Some c) (transactions s)
               | None \<Rightarrow> False)
        then Inl IntegrityError
      else Inr (push_transaction s
                  (new_transaction now s uid tx amount related_user_id charge_id descr
                     balance_after)))"

text \<open>\<^verbatim>\<open>UPDATE payments SET refunded=1 WHERE id=?\<close>.\<close>

definition set_refunded :: "db \<Rightarrow> nat \<Rightarrow> db" where
  "set_refunded s pid =
     s\<lparr>payments := map (\<lambda>p. if p_id p = pid then p\<lparr>p_refunded := True\<rparr> else p) (payments s)\<rparr>"

subsection \<open>The methods that write\<close>

text \<open>Each \<^verbatim>\<open>datetime('now')\<close> is a reading of the clock by one statement. A method takes
  the readings as a function \<open>clk\<close>: \<open>clk k\<close> is what its statement number \<open>k\<close> reads.\<close>

definition ensure_user :: "(nat \<Rightarrow> nat) \<Rightarrow> db \<Rightarrow> int \<Rightarrow> string option \<Rightarrow> (error + unit) \<times> db" where
  "ensure_user clk s uid uname = (Inr (), ensure_user_tx (clk 0) s uid uname)"

definition add_purchase ::
  "(nat \<Rightarrow> nat) \<Rightarrow> db \<Rightarrow> int \<Rightarrow> string option \<Rightarrow> int \<Rightarrow> string \<Rightarrow> (error + bool) \<times> db" where
  "add_purchase clk s uid uname amount cid =
     (let s1 = ensure_user_tx (clk 0) s uid uname in
      if list_ex (\<lambda>p. p_charge_id p = cid) (payments s1) then (Inr False, s)
      else (case insert_payment (clk 1) s1 uid amount cid of
              Inl e \<Rightarrow> (Inl e, s)
            | Inr s2 \<Rightarrow>
                (let s3 = update_balance (clk 2) s2 uid amount;
                     balance_after = get_balance_tx s3 uid
                 in (case insert_transaction (clk 3) s3 uid Purchase amount None (Some cid)
                            (Some PurchaseText) (Some balance_after) of
                       Inl e \<Rightarrow> (Inl e, s)
                     | Inr s4 \<Rightarrow> (Inr True, s4)))))"

definition transfer ::
  "(nat \<Rightarrow> nat) \<Rightarrow> db \<Rightarrow> int \<Rightarrow> int \<Rightarrow> int \<Rightarrow> string option \<Rightarrow> string option \<Rightarrow>
   (error + nat) \<times> db" where
  "transfer clk s from_user to_user amount from_username to_username =
     (if amount \<le> 0 then (Inl (ValueError ''amount must be positive''), s)
      else
        (let s1 = ensure_user_tx (clk 0) s from_user from_username;
             s2 = ensure_user_tx (clk 1) s1 to_user to_username;
             sender_balance = get_balance_tx s2 from_user
         in if sender_balance < amount then (Inl (ValueError ''insufficient_funds''), s)
            else
              (let s3 = update_balance (clk 2) s2 from_user (- amount);
                   s4 = update_balance (clk 3) s3 to_user amount
               in (case insert_transfer (clk 4) s4 from_user to_user amount of
                     Inl e \<Rightarrow> (Inl e, s)
                   | Inr (transfer_id, s5) \<Rightarrow>
                       (let sender_after = get_balance_tx s5 from_user;
                            receiver_after = get_balance_tx s5 to_user
                        in (case insert_transaction (clk 5) s5 from_user GiftOut amount
                                   (Some to_user) None (Some (GiftOutText amount to_user))
                                   (Some sender_after) of
                              Inl e \<Rightarrow> (Inl e, s)
                            | Inr s6 \<Rightarrow>
                                (case insert_transaction (clk 6) s6 to_user GiftIn amount
                                        (Some from_user) None
                                        (Some (GiftInText amount from_user))
                                        (Some receiver_after) of
                                   Inl e \<Rightarrow> (Inl e, s)
                                 | Inr s7 \<Rightarrow> (Inr transfer_id, s7))))))))"

definition mark_refund ::
  "(nat \<Rightarrow> nat) \<Rightarrow> db \<Rightarrow> int \<Rightarrow> string \<Rightarrow> int \<Rightarrow> (error + bool) \<times> db" where
  "mark_refund clk s uid cid amount =
     (case find (\<lambda>p. p_charge_id p = cid \<and> p_user_id p = uid) (payments s) of
        None \<Rightarrow> (Inr False, s)
      | Some row \<Rightarrow>
          (if p_refunded row then (Inr False, s)
           else if p_amount row \<noteq> amount then (Inr False, s)
           else
             (let current_balance = get_balance_tx s uid
              in if current_balance < amount then (Inr False, s)
                 else
                   (let s1 = set_refunded s (p_id row);
                        s2 = update_balance (clk 0) s1 uid (- amount);
                        balance_after = get_balance_tx s2 uid
                    in (case insert_transaction (clk 1) s2 uid Refund amount None (Some cid)
                               (Some RefundText) (Some balance_after) of
                          Inl e \<Rightarrow> (Inl e, s)
                        | Inr s3 \<Rightarrow> (Inr True, s3))))))"

subsection \<open>The methods that read\<close>


definition payment_exists :: "db \<Rightarrow> string \<Rightarrow> bool \<times> db" where
  "payment_exists s cid = (list_ex (\<lambda>p. p_charge_id p = cid) (payments s), s)"

text \<open>\<^verbatim>\<open>LIMIT ? OFFSET ?\<close> as SQLite reads it: a negative limit is no limit, a negative
  offset is 0.\<close>

definition sql_limit_offset :: "int \<Rightarrow> int \<Rightarrow> 'a list \<Rightarrow> 'a list" where
  "sql_limit_offset limit offset rows =
     (let rest = drop (nat offset) rows
      in if limit < 0 then rest else take (nat limit) rest)"

text \<open>\<^verbatim>\<open>ORDER BY created_at DESC, id DESC\<close>: ascending on the negated pair, compared
  lexicographically.\<close>

definition tx_order_key :: "transaction_row \<Rightarrow> int \<times> int" where
  "tx_order_key t = (- int (t_created_at t), - int (t_id t))"

text \<open>\<^verbatim>\<open>get_transactions\<close>. The rows are returned whole; the SELECT list leaves out
  \<^verbatim>\<open>user_id\<close>, which is the argument.\<close>

definition get_transactions :: "db \<Rightarrow> int \<Rightarrow> int \<Rightarrow> int \<Rightarrow> transaction_row list \<times> db" where
  "get_transactions s uid limit offset =
     (sql_limit_offset limit offset
        (sort_key tx_order_key (filter (\<lambda>t. t_user_id t = uid) (transactions s))), s)"

definition count_transactions :: "db \<Rightarrow> int \<Rightarrow> int \<times> db" where
  "count_transactions s uid = (int (length (filter (\<lambda>t. t_user_id t = uid) (transactions s))), s)"


definition get_payment_for_amount ::
  "(payment_row list \<Rightarrow> payment_row list) \<Rightarrow> db \<Rightarrow> int \<Rightarrow> int \<Rightarrow> payment_row option \<times> db" where
  "get_payment_for_amount scan s uid amount =
     (case sql_limit_offset 1 0
             (sort_key (\<lambda>p. - int (p_created_at p))
                (filter (\<lambda>p. p_user_id p = uid \<and> p_amount p = amount \<and> \<not> p_refunded p)
                   (scan (payments s)))) of
        [] \<Rightarrow> None
      | row # _ \<Rightarrow> Some row, s)"

subsection \<open>Histories\<close>

text \<open>A call of one of the four writing methods, and the store after a sequence of calls,
  each with its own clock readings.\<close>

datatype call =
    EnsureUser int "string option"
  | AddPurchase int "string option" int string
  | Transfer int int int "string option" "string option"
  | MarkRefund int string int

fun exec :: "db \<Rightarrow> (nat \<Rightarrow> nat) \<times> call \<Rightarrow> db" where
  "exec s (clk, EnsureUser uid uname) = snd (ensure_user clk s uid uname)"
| "exec s (clk, AddPurchase uid uname amount cid) = snd (add_purchase clk s uid uname amount cid)"
| "exec s (clk, Transfer a b amount an bn) = snd (transfer clk s a b amount an bn)"
| "exec s (clk, MarkRefund uid cid amount) = snd (mark_refund clk s uid cid amount)"

definition run :: "db \<Rightarrow> ((nat \<Rightarrow> nat) \<times> call) list \<Rightarrow> db" where
  "run s history = foldl exec s history"

text \<open>Replay of the ledger: the signed amount of an entry and the sum over one account.\<close>

definition signed_amount :: "transaction_row \<Rightarrow> int" where
  "signed_amount t =
     (case t_type t of
        Purchase \<Rightarrow> t_amount t
      | GiftIn \<Rightarrow> t_amount t
      | GiftOut \<Rightarrow> - t_amount t
      | Refund \<Rightarrow> - t_amount t)"

definition ledger_sum :: "db \<Rightarrow> int \<Rightarrow> int" where
  "ledger_sum s uid = sum_list (map signed_amount (filter (\<lambda>t. t_user_id t = uid) (transactions s)))"

subsection \<open>What a method commits\<close>

text \<open>The store a method commits when every statement of it goes through, written as one
  term; the facts below show when the method returns it.\<close>

definition transfer_commit ::
  "(nat \<Rightarrow> nat) \<Rightarrow> db \<Rightarrow> int \<Rightarrow> int \<Rightarrow> int \<Rightarrow> string option \<Rightarrow> string option \<Rightarrow> db" where
  "transfer_commit clk s a b amount an bn =
     (let s4 = update_balance (clk 3)
                 (update_balance (clk 2)
                    (ensure_user_tx (clk 1) (ensure_user_tx (clk 0) s a an) b bn) a (- amount))
                 b amount;
          s5 = push_transfer (clk 4) s4 a b amount;
          s6 = push_transaction s5
                 (new_transaction (clk 5) s5 a GiftOut amount (Some b) None
                    (Some (GiftOutText amount b)) (Some (get_balance_tx s5 a)))
      in push_transaction s6
           (new_transaction (clk 6) s6 b GiftIn amount (Some a) None
              (Some (GiftInText amount a)) (Some (get_balance_tx s5 b))))"

definition purchase_commit ::
  "(nat \<Rightarrow> nat) \<Rightarrow> db \<Rightarrow> int \<Rightarrow> string option \<Rightarrow> int \<Rightarrow> string \<Rightarrow> db" where
  "purchase_commit clk s uid uname amount cid =
     (let s3 = update_balance (clk 2)
                 (push_payment (clk 1) (ensure_user_tx (clk 0) s uid uname) uid amount cid)
                 uid amount
      in push_transaction s3
           (new_transaction (clk 3) s3 uid Purchase amount None (Some cid)
              (Some PurchaseText) (Some (get_balance_tx s3 uid))))"

definition refund_commit :: "(nat \<Rightarrow> nat) \<Rightarrow> db \<Rightarrow> int \<Rightarrow> string \<Rightarrow> int \<Rightarrow> nat \<Rightarrow> db" where
  "refund_commit clk s uid cid amount pid =
     (let s2 = update_balance (clk 0) (set_refunded s pid) uid (- amount)
      in push_transaction s2
           (new_transaction (clk 1) s2 uid Refund amount None (Some cid)
              (Some RefundText) (Some (get_balance_tx s2 uid))))"

subsection \<open>Properties of a store\<close>

text \<open>The charge ids that occur in \<^verbatim>\<open>payments\<close> and in the ledger, and three properties
  that every history keeps: both tables hold the same charge ids, every balance is the
  sum of the account's signed ledger amounts, and the ledger ids are distinct and not
  above the AUTOINCREMENT counter.\<close>

definition pay_charges :: "db \<Rightarrow> string set" where
  "pay_charges s = p_charge_id ` set (payments s)"

definition tx_charges :: "db \<Rightarrow> string set" where
  "tx_charges s = {c. Some c \<in> t_charge_id ` set (transactions s)}"

definition charges_agree :: "db \<Rightarrow> bool" where
  "charges_agree s \<longleftrightarrow> tx_charges s = pay_charges s"

definition balanced :: "db \<Rightarrow> bool" where
  "balanced s \<longleftrightarrow> (\<forall>v. get_balance_tx s v = ledger_sum s v)"

definition ids_fresh :: "db \<Rightarrow> bool" where
  "ids_fresh s \<longleftrightarrow>
     (\<forall>t\<in>set (transactions s). t_id t \<le> seq_transactions s) \<and>
     distinct (map t_id (transactions s))"



text \<open>The payment row that \<^verbatim>\<open>mark_refund\<close> selects, and the disjunction of the four checks
  it makes before it writes: no such row, row already refunded, another amount, balance
  below the amount.\<close>

definition refund_row :: "db \<Rightarrow> int \<Rightarrow> string \<Rightarrow> payment_row option" where
  "refund_row s uid cid = find (\<lambda>p. p_charge_id p = cid \<and> p_user_id p = uid) (payments s)"

definition refund_precondition_fails :: "db \<Rightarrow> int \<Rightarrow> string \<Rightarrow> int \<Rightarrow> bool" where
  "refund_precondition_fails s uid cid amount =
     (case refund_row s uid cid of
        None \<Rightarrow> True
      | Some row \<Rightarrow> p_refunded row \<or> p_amount row \<noteq> amount \<or> get_balance_tx s uid < amount)"

text \<open>The order of \<^verbatim>\<open>ORDER BY created_at DESC, id DESC\<close> between two ledger rows, and the
  pages of 20 rows at offsets 0, 20, 40, ... that the history view asks for, one after
  the other.\<close>

definition newer_first :: "transaction_row \<Rightarrow> transaction_row \<Rightarrow> bool" where
  "newer_first x y \<longleftrightarrow>
     t_created_at y < t_created_at x \<or> (t_created_at x = t_created_at y \<and> t_id y < t_id x)"

definition all_pages :: "db \<Rightarrow> int \<Rightarrow> nat \<Rightarrow> transaction_row list" where
  "all_pages s uid n = concat (map (\<lambda>k. fst (get_transactions s uid 20 (20 * int k))) [0..<n])"

text \<open>The WHERE clause of \<^verbatim>\<open>get_payment_for_amount\<close>.\<close>

definition refundable :: "int \<Rightarrow> int \<Rightarrow> payment_row \<Rightarrow> bool" where
  "refundable uid amount p \<longleftrightarrow> p_user_id p = uid \<and> p_amount p = amount \<and> \<not> p_refunded p"

subsection \<open>A worked history\<close>

text \<open>Two clocks, one that advances with every statement and one that stands still within
  a method (so that rows share a timestamp), and a short history: account 1 buys 100,
  gives 60 to account 2, and account 2 buys 50.\<close>

definition demo_clk :: "nat \<Rightarrow> nat" where
  "demo_clk k = 100 + k"

definition still_clk :: "nat \<Rightarrow> nat" where
  "still_clk k = 100"

definition demo_history :: "((nat \<Rightarrow> nat) \<times> call) list" where
  "demo_history =
     [(demo_clk, AddPurchase 1 (Some ''alice'') 100 ''chg1''),
      (still_clk, Transfer 1 2 60 (Some ''alice'') None),
      (demo_clk, AddPurchase 2 None 50 ''chg2'')]"

definition demo_db :: db where
  "demo_db =
     \<lparr>users =
        [\<lparr>u_user_id = 1, u_username = Some ''alice'', u_balance = 40,
          u_created_at = 100, u_updated_at = 100\<rparr>,
         \<lparr>u_user_id = 2, u_username = None, u_balance = 110,
          u_created_at = 100, u_updated_at = 102\<rparr>],
      payments =
        [\<lparr>p_id = 1, p_user_id = 1, p_amount = 100, p_currency = ''XTR'',
          p_charge_id = ''chg1'', p_refunded = False, p_created_at = 101\<rparr>,
         \<lparr>p_id = 2, p_user_id = 2, p_amount = 50, p_currency = ''XTR'',
          p_charge_id = ''chg2'', p_refunded = False, p_created_at = 101\<rparr>],
      transfers =
        [\<lparr>f_id = 1, f_from_user_id = 1, f_to_user_id = 2, f_amount = 60,
          f_created_at = 100\<rparr>],
      transactions =
        [\<lparr>t_id = 1, t_user_id = 1, t_type = Purchase, t_amount = 100,
          t_related_user_id = None, t_charge_id = Some ''chg1'',
          t_description = Some PurchaseText, t_balance_after = Some 100,
          t_created_at = 103\<rparr>,
         \<lparr>t_id = 2, t_user_id = 1, t_type = GiftOut, t_amount = 60,
          t_related_user_id = Some 2, t_charge_id = None,
          t_description = Some (GiftOutText 60 2), t_balance_after = Some 40,
          t_created_at = 100\<rparr>,
         \<lparr>t_id = 3, t_user_id = 2, t_type = GiftIn, t_amount = 60,
          t_related_user_id = Some 1, t_charge_id = None,
          t_description = Some (GiftInText 60 1), t_balance_after = Some 60,
          t_created_at = 100\<rparr>,
         \<lparr>t_id = 4, t_user_id = 2, t_type = Purchase, t_amount = 50,
          t_related_user_id = None, t_charge_id = Some ''chg2'',
          t_description = Some PurchaseText, t_balance_after = Some 110,
          t_created_at = 103\<rparr>],
      seq_payments = 2, seq_transfers = 1, seq_transactions = 4\<rparr>"

text \<open>Two more stores: the worked one after a second purchase of 100 by account 1 at a
  later time, and one with two accounts that both have balance 0.\<close>

definition late_clk :: "nat \<Rightarrow> nat" where
  "late_clk k = 200 + k"

definition second_purchase_db :: db where
  "second_purchase_db = snd (add_purchase late_clk demo_db 1 None 100 ''chg3'')"


section \<open>Facts about the statements\<close>

lemma user_exists_ids: "user_exists s uid \<longleftrightarrow> uid \<in> set (map u_user_id (users s))"
  by (auto simp: user_exists_def list_ex_iff)

lemma find_append_case:
  "find P (xs @ ys) = (case find P xs of None \<Rightarrow> find P ys | Some x \<Rightarrow> Some x)"
  by (induction xs) auto

lemma find_user_None_iff: "find_user s uid = None \<longleftrightarrow> \<not> user_exists s uid"
  by (auto simp: find_user_def user_exists_def list_ex_iff find_None_iff)


lemma find_user_map_name:
  "find (\<lambda>u. u_user_id u = v)
     (map (\<lambda>u. if u_user_id u = uid then u\<lparr>u_username := f u, u_updated_at := now\<rparr> else u) xs) =
   map_option (\<lambda>u. if u_user_id u = uid then u\<lparr>u_username := f u, u_updated_at := now\<rparr> else u)
     (find (\<lambda>u. u_user_id u = v) xs)"
  by (induction xs) auto

lemma find_user_map_balance:
  "find (\<lambda>u. u_user_id u = v)
     (map (\<lambda>u. if u_user_id u = uid then u\<lparr>u_balance := u_balance u + d, u_updated_at := now\<rparr> else u) xs) =
   map_option (\<lambda>u. if u_user_id u = uid then u\<lparr>u_balance := u_balance u + d, u_updated_at := now\<rparr> else u)
     (find (\<lambda>u. u_user_id u = v) xs)"
  by (induction xs) auto

lemma find_user_id: "find (\<lambda>u. u_user_id u = v) xs = Some u \<Longrightarrow> u_user_id u = v"
  by (induction xs) (auto split: if_splits)

lemma user_ids_map_name:
  "map u_user_id (map (\<lambda>u. if u_user_id u = uid then u\<lparr>u_username := f u, u_updated_at := now\<rparr> else u) xs) =
   map u_user_id xs"
  by (induction xs) auto

lemma user_ids_map_balance:
  "map u_user_id (map (\<lambda>u. if u_user_id u = uid then u\<lparr>u_balance := u_balance u + d, u_updated_at := now\<rparr> else u) xs) =
   map u_user_id xs"
  by (induction xs) auto

lemma user_ids_ensure:
  "map u_user_id (users (ensure_user_tx now s uid un)) =
     (if user_exists s uid then map u_user_id (users s) else map u_user_id (users s) @ [uid])"
  by (simp add: ensure_user_tx_def user_ids_map_name)

lemma user_ids_update [simp]:
  "map u_user_id (users (update_balance now s uid d)) = map u_user_id (users s)"
  by (simp add: update_balance_def user_ids_map_balance)

lemma user_exists_ensure [simp]:
  "user_exists (ensure_user_tx now s uid un) v \<longleftrightarrow> v = uid \<or> user_exists s v"
  unfolding user_exists_ids user_ids_ensure by (auto simp: user_exists_ids)

lemma user_exists_update [simp]:
  "user_exists (update_balance now s uid d) v \<longleftrightarrow> user_exists s v"
  unfolding user_exists_ids by simp

lemma get_balance_tx_ensure [simp]:
  "get_balance_tx (ensure_user_tx now s uid un) v = get_balance_tx s v"
proof (cases "user_exists s uid")
  case True
  then show ?thesis
    by (simp add: ensure_user_tx_def get_balance_tx_def find_user_def find_user_map_name
        split: option.splits)
next
  case False
  then have "find (\<lambda>u. u_user_id u = uid) (users s) = None"
    using find_user_None_iff[of s uid] by (simp add: find_user_def)
  with False show ?thesis
    by (auto simp: ensure_user_tx_def get_balance_tx_def find_user_def find_append_case
        split: option.splits)
qed

lemma get_balance_tx_update:
  "get_balance_tx (update_balance now s uid d) v =
     (if v = uid \<and> user_exists s uid then get_balance_tx s v + d else get_balance_tx s v)"
proof (cases "find (\<lambda>u. u_user_id u = v) (users s)")
  case None
  then have "\<not> user_exists s v" using find_user_None_iff[of s v] by (simp add: find_user_def)
  with None show ?thesis
    by (auto simp: update_balance_def get_balance_tx_def find_user_def find_user_map_balance)
next
  case (Some u)
  then have "user_exists s v" using find_user_None_iff[of s v] by (simp add: find_user_def)
  with Some show ?thesis
    by (auto simp: update_balance_def get_balance_tx_def find_user_def find_user_map_balance
        dest: find_user_id)
qed

lemma tables_ensure [simp]:
  "payments (ensure_user_tx now s uid un) = payments s"
  "transfers (ensure_user_tx now s uid un) = transfers s"
  "transactions (ensure_user_tx now s uid un) = transactions s"
  "seq_payments (ensure_user_tx now s uid un) = seq_payments s"
  "seq_transfers (ensure_user_tx now s uid un) = seq_transfers s"
  "seq_transactions (ensure_user_tx now s uid un) = seq_transactions s"
  by (simp_all add: ensure_user_tx_def)

lemma tables_update [simp]:
  "payments (update_balance now s uid d) = payments s"
  "transfers (update_balance now s uid d) = transfers s"
  "transactions (update_balance now s uid d) = transactions s"
  "seq_payments (update_balance now s uid d) = seq_payments s"
  "seq_transfers (update_balance now s uid d) = seq_transfers s"
  "seq_transactions (update_balance now s uid d) = seq_transactions s"
  by (simp_all add: update_balance_def)

lemma tables_push_payment [simp]:
  "users (push_payment now s uid amount cid) = users s"
  "transfers (push_payment now s uid amount cid) = transfers s"
  "transactions (push_payment now s uid amount cid) = transactions s"
  "seq_payments (push_payment now s uid amount cid) = Suc (seq_payments s)"
  "seq_transfers (push_payment now s uid amount cid) = seq_transfers s"
  "seq_transactions (push_payment now s uid amount cid) = seq_transactions s"
  by (simp_all add: push_payment_def)

lemma tables_push_transfer [simp]:
  "users (push_transfer now s a b amount) = users s"
  "payments (push_transfer now s a b amount) = payments s"
  "transactions (push_transfer now s a b amount) = transactions s"
  "seq_payments (push_transfer now s a b amount) = seq_payments s"
  "seq_transfers (push_transfer now s a b amount) = Suc (seq_transfers s)"
  "seq_transactions (push_transfer now s a b amount) = seq_transactions s"
  by (simp_all add: push_transfer_def)

lemma tables_push_transaction [simp]:
  "users (push_transaction s row) = users s"
  "payments (push_transaction s row) = payments s"
  "transfers (push_transaction s row) = transfers s"
  "transactions (push_transaction s row) = transactions s @ [row]"
  "seq_payments (push_transaction s row) = seq_payments s"
  "seq_transfers (push_transaction s row) = seq_transfers s"
  "seq_transactions (push_transaction s row) = Suc (seq_transactions s)"
  by (simp_all add: push_transaction_def)

lemma tables_set_refunded [simp]:
  "users (set_refunded s pid) = users s"
  "transfers (set_refunded s pid) = transfers s"
  "transactions (set_refunded s pid) = transactions s"
  "seq_payments (set_refunded s pid) = seq_payments s"
  "seq_transfers (set_refunded s pid) = seq_transfers s"
  "seq_transactions (set_refunded s pid) = seq_transactions s"
  by (simp_all add: set_refunded_def)

lemma fields_new_transaction [simp]:
  "t_id (new_transaction now s uid tx amount rel cid descr ba) = Suc (seq_transactions s)"
  "t_user_id (new_transaction now s uid tx amount rel cid descr ba) = uid"
  "t_type (new_transaction now s uid tx amount rel cid descr ba) = tx"
  "t_amount (new_transaction now s uid tx amount rel cid descr ba) = amount"
  "t_related_user_id (new_transaction now s uid tx amount rel cid descr ba) = rel"
  "t_charge_id (new_transaction now s uid tx amount rel cid descr ba) = cid"
  "t_description (new_transaction now s uid tx amount rel cid descr ba) = descr"
  "t_balance_after (new_transaction now s uid tx amount rel cid descr ba) = ba"
  "t_created_at (new_transaction now s uid tx amount rel cid descr ba) = now"
  by (simp_all add: new_transaction_def)

lemma get_balance_tx_users: "users s' = users s \<Longrightarrow> get_balance_tx s' v = get_balance_tx s v"
  by (simp add: get_balance_tx_def find_user_def)

lemma user_exists_users: "users s' = users s \<Longrightarrow> user_exists s' v = user_exists s v"
  by (simp add: user_exists_def)

lemma get_balance_tx_push [simp]:
  "get_balance_tx (push_payment now s uid amount cid) v = get_balance_tx s v"
  "get_balance_tx (push_transfer now s a b amount) v = get_balance_tx s v"
  "get_balance_tx (push_transaction s row) v = get_balance_tx s v"
  "get_balance_tx (set_refunded s pid) v = get_balance_tx s v"
  by (simp_all add: get_balance_tx_def find_user_def)

lemma user_exists_push [simp]:
  "user_exists (push_payment now s uid amount cid) v = user_exists s v"
  "user_exists (push_transfer now s a b amount) v = user_exists s v"
  "user_exists (push_transaction s row) v = user_exists s v"
  "user_exists (set_refunded s pid) v = user_exists s v"
  by (simp_all add: user_exists_def)

lemma payments_push_payment:
  "payments (push_payment now s uid amount cid) =
     payments s @ [\<lparr>p_id = Suc (seq_payments s), p_user_id = uid, p_amount = amount,
                    p_currency = ''XTR'', p_charge_id = cid, p_refunded = False,
                    p_created_at = now\<rparr>]"
  by (simp add: push_payment_def)

lemma transfers_push_transfer:
  "transfers (push_transfer now s a b amount) =
     transfers s @ [\<lparr>f_id = Suc (seq_transfers s), f_from_user_id = a, f_to_user_id = b,
                     f_amount = amount, f_created_at = now\<rparr>]"
  by (simp add: push_transfer_def)

lemma payments_set_refunded:
  "payments (set_refunded s pid) =
     map (\<lambda>p. if p_id p = pid then p\<lparr>p_refunded := True\<rparr> else p) (payments s)"
  by (simp add: set_refunded_def)

lemma insert_transfer_ok:
  "user_exists s a \<Longrightarrow> user_exists s b \<Longrightarrow>
   insert_transfer now s a b amount = Inr (Suc (seq_transfers s), push_transfer now s a b amount)"
  by (simp add: insert_transfer_def)

lemma insert_gift_ok:
  "user_exists s uid \<Longrightarrow> user_exists s r \<Longrightarrow>
   insert_transaction now s uid tx amount (Some r) None descr ba =
     Inr (push_transaction s (new_transaction now s uid tx amount (Some r) None descr ba))"
  by (simp add: insert_transaction_def)

lemma insert_charge_cases:
  "insert_transaction now s uid tx amount None (Some c) descr ba =
     (if \<not> user_exists s uid \<or> list_ex (\<lambda>t. t_charge_id t = Some c) (transactions s)
      then Inl IntegrityError
      else Inr (push_transaction s (new_transaction now s uid tx amount None (Some c) descr ba)))"
  by (simp add: insert_transaction_def)

lemma demo_db_reached: "run init_db demo_history = demo_db"
  by (simp add: run_def demo_history_def demo_db_def init_db_def add_purchase_def transfer_def
      Let_def ensure_user_tx_def user_exists_def insert_payment_def push_payment_def
      update_balance_def get_balance_tx_def find_user_def insert_transaction_def
      push_transaction_def new_transaction_def insert_transfer_def push_transfer_def
      demo_clk_def still_clk_def coalesce_def)

lemma demo_db_balances:
  "get_balance_tx demo_db 1 = 40" "get_balance_tx demo_db 2 = 110" "get_balance_tx demo_db 3 = 0"
  by (simp_all add: demo_db_def get_balance_tx_def find_user_def)

section \<open>Transfers\<close>

lemma transfer_rejects:
  "amount \<le> 0 \<Longrightarrow> transfer clk s a b amount an bn = (Inl (ValueError ''amount must be positive''), s)"
  by (simp add: transfer_def)

lemma transfer_insufficient:
  "0 < amount \<Longrightarrow> get_balance_tx s a < amount \<Longrightarrow>
   transfer clk s a b amount an bn = (Inl (ValueError ''insufficient_funds''), s)"
  by (simp add: transfer_def Let_def)

lemma transfer_commits:
  assumes "0 < amount" and "amount \<le> get_balance_tx s a"
  shows "transfer clk s a b amount an bn =
           (Inr (Suc (seq_transfers s)), transfer_commit clk s a b amount an bn)"
  using assms
  by (simp add: transfer_def transfer_commit_def Let_def insert_transfer_ok insert_gift_ok)


lemma transfer_commit_tables:
  "payments (transfer_commit clk s a b amount an bn) = payments s"
  "seq_payments (transfer_commit clk s a b amount an bn) = seq_payments s"
  "seq_transfers (transfer_commit clk s a b amount an bn) = Suc (seq_transfers s)"
  "seq_transactions (transfer_commit clk s a b amount an bn) = Suc (Suc (seq_transactions s))"
  "users (transfer_commit clk s a b amount an bn) =
     users (update_balance (clk 3)
              (update_balance (clk 2)
                 (ensure_user_tx (clk 1) (ensure_user_tx (clk 0) s a an) b bn) a (- amount))
              b amount)"
  "transfers (transfer_commit clk s a b amount an bn) =
     transfers s @ [\<lparr>f_id = Suc (seq_transfers s), f_from_user_id = a, f_to_user_id = b,
                     f_amount = amount, f_created_at = clk 4\<rparr>]"
  by (simp_all add: transfer_commit_def Let_def transfers_push_transfer)

lemma transfer_commit_balance:
  "get_balance_tx (transfer_commit clk s a b amount an bn) v =
     get_balance_tx s v - (if v = a then amount else 0) + (if v = b then amount else 0)"
  by (simp add: transfer_commit_def Let_def get_balance_tx_update)

lemma transfer_commit_user_exists:
  "user_exists (transfer_commit clk s a b amount an bn) v \<longleftrightarrow> v = a \<or> v = b \<or> user_exists s v"
  by (auto simp: transfer_commit_def Let_def)

lemma transfer_commit_transactions:
  "transactions (transfer_commit clk s a b amount an bn) =
     transactions s @
       [\<lparr>t_id = Suc (seq_transactions s), t_user_id = a, t_type = GiftOut, t_amount = amount,
         t_related_user_id = Some b, t_charge_id = None,
         t_description = Some (GiftOutText amount b),
         t_balance_after = Some (get_balance_tx (transfer_commit clk s a b amount an bn) a),
         t_created_at = clk 5\<rparr>,
        \<lparr>t_id = Suc (Suc (seq_transactions s)), t_user_id = b, t_type = GiftIn, t_amount = amount,
         t_related_user_id = Some a, t_charge_id = None,
         t_description = Some (GiftInText amount a),
         t_balance_after = Some (get_balance_tx (transfer_commit clk s a b amount an bn) b),
         t_created_at = clk 6\<rparr>]"
  by (simp add: transfer_commit_def Let_def new_transaction_def)

text \<open>
  Claim C3. \<^verbatim>\<open>transfer\<close> fails exactly when the amount is not positive (ValueError
  "amount must be positive") or the sender's balance is below the amount (ValueError
  "insufficient_funds"), and then the store is the one it started from. Otherwise it
  commits, in one store, the debit of the sender and the credit of the receiver, one
  \<^verbatim>\<open>gift_out\<close> and one \<^verbatim>\<open>gift_in\<close> ledger row and one \<^verbatim>\<open>transfers\<close> row, and the sender's
  balance is not negative afterwards.
\<close>

theorem transfer_outcome:
  "(amount \<le> 0 \<longrightarrow>
      transfer clk s a b amount an bn = (Inl (ValueError ''amount must be positive''), s)) \<and>
   (0 < amount \<and> get_balance_tx s a < amount \<longrightarrow>
      transfer clk s a b amount an bn = (Inl (ValueError ''insufficient_funds''), s)) \<and>
   (isl (fst (transfer clk s a b amount an bn)) \<longleftrightarrow> amount \<le> 0 \<or> get_balance_tx s a < amount) \<and>
   (0 < amount \<and> amount \<le> get_balance_tx s a \<longrightarrow>
      (\<exists>s' out inn row.
         transfer clk s a b amount an bn = (Inr (f_id row), s') \<and>
         users s' = users (update_balance (clk 3)
                             (update_balance (clk 2)
                                (ensure_user_tx (clk 1) (ensure_user_tx (clk 0) s a an) b bn)
                                a (- amount))
                             b amount) \<and>
         (\<forall>v. get_balance_tx s' v =
                get_balance_tx s v - (if v = a then amount else 0) + (if v = b then amount else 0)) \<and>
         0 \<le> get_balance_tx s' a \<and>
         transactions s' = transactions s @ [out, inn] \<and>
         t_user_id out = a \<and> t_type out = GiftOut \<and> t_amount out = amount \<and>
         t_related_user_id out = Some b \<and>
         t_user_id inn = b \<and> t_type inn = GiftIn \<and> t_amount inn = amount \<and>
         t_related_user_id inn = Some a \<and>
         transfers s' = transfers s @ [row] \<and>
         f_from_user_id row = a \<and> f_to_user_id row = b \<and> f_amount row = amount \<and>
         payments s' = payments s))"
proof (intro conjI impI)
  assume "amount \<le> 0"
  then show "transfer clk s a b amount an bn = (Inl (ValueError ''amount must be positive''), s)"
    by (rule transfer_rejects)
next
  assume "0 < amount \<and> get_balance_tx s a < amount"
  then show "transfer clk s a b amount an bn = (Inl (ValueError ''insufficient_funds''), s)"
    by (simp add: transfer_insufficient)
next
  show "isl (fst (transfer clk s a b amount an bn)) \<longleftrightarrow> amount \<le> 0 \<or> get_balance_tx s a < amount"
  proof (cases "amount \<le> 0")
    case True
    then show ?thesis by (simp add: transfer_rejects)
  next
    case pos: False
    show ?thesis
    proof (cases "get_balance_tx s a < amount")
      case True
      with pos show ?thesis by (simp add: transfer_insufficient)
    next
      case False
      with pos show ?thesis by (simp add: transfer_commits)
    qed
  qed
next
  assume ok: "0 < amount \<and> amount \<le> get_balance_tx s a"
  let ?s' = "transfer_commit clk s a b amount an bn"
  let ?row = "\<lparr>f_id = Suc (seq_transfers s), f_from_user_id = a, f_to_user_id = b,
               f_amount = amount, f_created_at = clk 4\<rparr>"
  have run: "transfer clk s a b amount an bn = (Inr (f_id ?row), ?s')"
    using ok by (simp add: transfer_commits)
  have nonneg: "0 \<le> get_balance_tx ?s' a"
    using ok by (simp add: transfer_commit_balance)
  show "\<exists>s' out inn row.
         transfer clk s a b amount an bn = (Inr (f_id row), s') \<and>
         users s' = users (update_balance (clk 3)
                             (update_balance (clk 2)
                                (ensure_user_tx (clk 1) (ensure_user_tx (clk 0) s a an) b bn)
                                a (- amount))
                             b amount) \<and>
         (\<forall>v. get_balance_tx s' v =
                get_balance_tx s v - (if v = a then amount else 0) + (if v = b then amount else 0)) \<and>
         0 \<le> get_balance_tx s' a \<and>
         transactions s' = transactions s @ [out, inn] \<and>
         t_user_id out = a \<and> t_type out = GiftOut \<and> t_amount out = amount \<and>
         t_related_user_id out = Some b \<and>
         t_user_id inn = b \<and> t_type inn = GiftIn \<and> t_amount inn = amount \<and>
         t_related_user_id inn = Some a \<and>
         transfers s' = transfers s @ [row] \<and>
         f_from_user_id row = a \<and> f_to_user_id row = b \<and> f_amount row = amount \<and>
         payments s' = payments s"
    apply (rule exI[of _ ?s'])
    apply (subst transfer_commit_transactions)
    apply (intro exI conjI)
                     apply (rule run)
                    apply (rule transfer_commit_tables(5))
                   apply (simp add: transfer_commit_balance)
                  apply (rule nonneg)
                 apply (rule refl)
                apply simp_all
     apply (simp_all add: transfer_commit_tables)
    done
qed


theorem transfer_outcome_witness:
  "transfer demo_clk demo_db 1 2 (- 5) None None =
     (Inl (ValueError ''amount must be positive''), demo_db) \<and>
   transfer demo_clk demo_db 1 2 100 None None =
     (Inl (ValueError ''insufficient_funds''), demo_db) \<and>
   \<not> isl (fst (transfer demo_clk demo_db 1 2 30 None None)) \<and>
   get_balance_tx (snd (transfer demo_clk demo_db 1 2 30 None None)) 1 = 10 \<and>
   get_balance_tx (snd (transfer demo_clk demo_db 1 2 30 None None)) 2 = 140"
  using transfer_outcome [of "- 5" demo_clk demo_db 1 2 None None]
    transfer_outcome [of 100 demo_clk demo_db 1 2 None None]
    transfer_outcome [of 30 demo_clk demo_db 1 2 None None]
  by (auto simp: demo_db_balances)

text \<open>
  Claim C10. A transfer from an account to itself, of a positive amount that the balance
  covers, goes through: the balance at the end is the balance at the start, and the two
  ledger rows (\<^verbatim>\<open>gift_out\<close> and \<^verbatim>\<open>gift_in\<close>, both of that account) and the \<^verbatim>\<open>transfers\<close> row
  are written all the same.
\<close>

theorem self_transfer:
  assumes "0 < amount" and "amount \<le> get_balance_tx s a"
  shows "\<exists>s' out inn row.
           transfer clk s a a amount an bn = (Inr (f_id row), s') \<and>
           get_balance_tx s' a = get_balance_tx s a \<and>
           transactions s' = transactions s @ [out, inn] \<and>
           t_user_id out = a \<and> t_type out = GiftOut \<and> t_amount out = amount \<and>
           t_user_id inn = a \<and> t_type inn = GiftIn \<and> t_amount inn = amount \<and>
           transfers s' = transfers s @ [row] \<and>
           f_from_user_id row = a \<and> f_to_user_id row = a \<and> f_amount row = amount"
proof -
  let ?s' = "transfer_commit clk s a a amount an bn"
  let ?row = "\<lparr>f_id = Suc (seq_transfers s), f_from_user_id = a, f_to_user_id = a,
               f_amount = amount, f_created_at = clk 4\<rparr>"
  have run: "transfer clk s a a amount an bn = (Inr (f_id ?row), ?s')"
    using assms by (simp add: transfer_commits)
  show ?thesis
    apply (rule exI[of _ ?s'])
    apply (subst transfer_commit_transactions)
    apply (intro exI conjI)
                apply (rule run)
               apply (simp add: transfer_commit_balance)
              apply (rule refl)
             apply simp_all
    apply (simp_all add: transfer_commit_tables)
    done
qed

theorem self_transfer_witness:
  "\<exists>s' out inn row.
     transfer demo_clk demo_db 1 1 40 None None = (Inr (f_id row), s') \<and>
     get_balance_tx s' 1 = 40 \<and>
     transactions s' = transactions demo_db @ [out, inn] \<and>
     t_user_id out = 1 \<and> t_type out = GiftOut \<and> t_amount out = 40 \<and>
     t_user_id inn = 1 \<and> t_type inn = GiftIn \<and> t_amount inn = 40 \<and>
     transfers s' = transfers demo_db @ [row] \<and>
     f_from_user_id row = 1 \<and> f_to_user_id row = 1 \<and> f_amount row = 40"
  using self_transfer [of 40 demo_db 1 demo_clk None None]
  by (simp add: demo_db_balances)

section \<open>Purchases, refunds and histories\<close>

lemma add_purchase_cases:
  "add_purchase clk s uid uname amount cid =
     (if list_ex (\<lambda>p. p_charge_id p = cid) (payments s) then (Inr False, s)
      else if list_ex (\<lambda>t. t_charge_id t = Some cid) (transactions s)
        then (Inl IntegrityError, s)
      else (Inr True, purchase_commit clk s uid uname amount cid))"
  by (simp add: add_purchase_def purchase_commit_def Let_def insert_payment_def
      insert_charge_cases)

lemma mark_refund_cases:
  "mark_refund clk s uid cid amount =
     (case find (\<lambda>p. p_charge_id p = cid \<and> p_user_id p = uid) (payments s) of
        None \<Rightarrow> (Inr False, s)
      | Some row \<Rightarrow>
          if p_refunded row \<or> p_amount row \<noteq> amount \<or> get_balance_tx s uid < amount
          then (Inr False, s)
          else if \<not> user_exists s uid \<or> list_ex (\<lambda>t. t_charge_id t = Some cid) (transactions s)
          then (Inl IntegrityError, s)
          else (Inr True, refund_commit clk s uid cid amount (p_id row)))"
  by (simp add: mark_refund_def refund_commit_def Let_def insert_charge_cases
      split: option.splits)

lemma purchase_commit_tables:
  "transfers (purchase_commit clk s uid uname amount cid) = transfers s"
  "seq_transfers (purchase_commit clk s uid uname amount cid) = seq_transfers s"
  "seq_payments (purchase_commit clk s uid uname amount cid) = Suc (seq_payments s)"
  "seq_transactions (purchase_commit clk s uid uname amount cid) = Suc (seq_transactions s)"
  "users (purchase_commit clk s uid uname amount cid) =
     users (update_balance (clk 2) (ensure_user_tx (clk 0) s uid uname) uid amount)"
  "payments (purchase_commit clk s uid uname amount cid) =
     payments s @ [\<lparr>p_id = Suc (seq_payments s), p_user_id = uid, p_amount = amount,
                    p_currency = ''XTR'', p_charge_id = cid, p_refunded = False,
                    p_created_at = clk 1\<rparr>]"
  by (simp_all add: purchase_commit_def Let_def payments_push_payment update_balance_def)

lemma purchase_commit_balance:
  "get_balance_tx (purchase_commit clk s uid uname amount cid) v =
     get_balance_tx s v + (if v = uid then amount else 0)"
  by (simp add: purchase_commit_def Let_def get_balance_tx_update)

lemma purchase_commit_user_exists:
  "user_exists (purchase_commit clk s uid uname amount cid) v \<longleftrightarrow> v = uid \<or> user_exists s v"
  by (simp add: purchase_commit_def Let_def)

lemma purchase_commit_transactions:
  "transactions (purchase_commit clk s uid uname amount cid) =
     transactions s @
       [\<lparr>t_id = Suc (seq_transactions s), t_user_id = uid, t_type = Purchase, t_amount = amount,
         t_related_user_id = None, t_charge_id = Some cid,
         t_description = Some PurchaseText,
         t_balance_after = Some (get_balance_tx (purchase_commit clk s uid uname amount cid) uid),
         t_created_at = clk 3\<rparr>]"
  by (simp add: purchase_commit_def Let_def new_transaction_def)

lemma refund_commit_tables:
  "transfers (refund_commit clk s uid cid amount pid) = transfers s"
  "seq_transfers (refund_commit clk s uid cid amount pid) = seq_transfers s"
  "seq_payments (refund_commit clk s uid cid amount pid) = seq_payments s"
  "seq_transactions (refund_commit clk s uid cid amount pid) = Suc (seq_transactions s)"
  "users (refund_commit clk s uid cid amount pid) = users (update_balance (clk 0) s uid (- amount))"
  "payments (refund_commit clk s uid cid amount pid) =
     map (\<lambda>p. if p_id p = pid then p\<lparr>p_refunded := True\<rparr> else p) (payments s)"
  by (simp_all add: refund_commit_def Let_def payments_set_refunded update_balance_def)

lemma refund_commit_balance:
  "get_balance_tx (refund_commit clk s uid cid amount pid) v =
     get_balance_tx s v - (if v = uid \<and> user_exists s uid then amount else 0)"
  by (simp add: refund_commit_def Let_def get_balance_tx_update)

lemma refund_commit_user_exists:
  "user_exists (refund_commit clk s uid cid amount pid) v \<longleftrightarrow> user_exists s v"
  by (simp add: refund_commit_def Let_def)

lemma refund_commit_transactions:
  "transactions (refund_commit clk s uid cid amount pid) =
     transactions s @
       [\<lparr>t_id = Suc (seq_transactions s), t_user_id = uid, t_type = Refund, t_amount = amount,
         t_related_user_id = None, t_charge_id = Some cid,
         t_description = Some RefundText,
         t_balance_after = Some (get_balance_tx (refund_commit clk s uid cid amount pid) uid),
         t_created_at = clk 1\<rparr>]"
  by (simp add: refund_commit_def Let_def new_transaction_def)

lemma list_ex_pay_charges: "list_ex (\<lambda>p. p_charge_id p = cid) (payments s) \<longleftrightarrow> cid \<in> pay_charges s"
  by (auto simp: pay_charges_def list_ex_iff)

lemma list_ex_tx_charges:
  "list_ex (\<lambda>t. t_charge_id t = Some cid) (transactions s) \<longleftrightarrow> cid \<in> tx_charges s"
  by (force simp: tx_charges_def list_ex_iff image_iff)

lemma tx_charges_append:
  "transactions s' = transactions s @ rows \<Longrightarrow>
   tx_charges s' = tx_charges s \<union> {c. Some c \<in> t_charge_id ` set rows}"
  by (auto simp: tx_charges_def)

lemma charge_ids_set_refunded:
  "map p_charge_id (map (\<lambda>p. if p_id p = pid then p\<lparr>p_refunded := True\<rparr> else p) ps) =
   map p_charge_id ps"
  by (induction ps) auto

lemma find_Some_set: "find P xs = Some x \<Longrightarrow> x \<in> set xs \<and> P x"
  by (induction xs) (auto split: if_splits)

lemma pay_charges_purchase:
  "pay_charges (purchase_commit clk s uid un amount cid) = insert cid (pay_charges s)"
  by (simp add: pay_charges_def purchase_commit_tables)

lemma tx_charges_purchase:
  "tx_charges (purchase_commit clk s uid un amount cid) = insert cid (tx_charges s)"
  by (simp add: tx_charges_append[OF purchase_commit_transactions])

lemma pay_charges_transfer:
  "pay_charges (transfer_commit clk s a b amount an bn) = pay_charges s"
  by (simp add: pay_charges_def transfer_commit_tables)

lemma tx_charges_transfer:
  "tx_charges (transfer_commit clk s a b amount an bn) = tx_charges s"
  by (simp add: tx_charges_append[OF transfer_commit_transactions])

lemma pay_charges_refund:
  "pay_charges (refund_commit clk s uid cid amount pid) = pay_charges s"
proof -
  have "set (map p_charge_id (payments (refund_commit clk s uid cid amount pid))) =
        set (map p_charge_id (payments s))"
    by (simp only: refund_commit_tables charge_ids_set_refunded)
  then show ?thesis by (simp add: pay_charges_def)
qed

lemma tx_charges_refund:
  "tx_charges (refund_commit clk s uid cid amount pid) = insert cid (tx_charges s)"
  by (simp add: tx_charges_append[OF refund_commit_transactions])

lemma exec_result:
  "exec s (clk, c) = s \<or>
   (\<exists>uid un. exec s (clk, c) = ensure_user_tx (clk 0) s uid un) \<or>
   (\<exists>uid un amount cid. cid \<notin> pay_charges s \<and> cid \<notin> tx_charges s \<and>
      exec s (clk, c) = purchase_commit clk s uid un amount cid \<and>
      c = AddPurchase uid un amount cid) \<or>
   (\<exists>a b amount an bn. 0 < amount \<and> amount \<le> get_balance_tx s a \<and>
      exec s (clk, c) = transfer_commit clk s a b amount an bn) \<or>
   (\<exists>uid cid amount row.
      find (\<lambda>p. p_charge_id p = cid \<and> p_user_id p = uid) (payments s) = Some row \<and>
      amount \<le> get_balance_tx s uid \<and> user_exists s uid \<and> cid \<notin> tx_charges s \<and>
      exec s (clk, c) = refund_commit clk s uid cid amount (p_id row))"
proof (cases c)
  case (EnsureUser uid un)
  then show ?thesis by (auto simp: ensure_user_def)
next
  case (AddPurchase uid un amount cid)
  then show ?thesis
    by (simp add: add_purchase_cases list_ex_pay_charges list_ex_tx_charges)
next
  case (Transfer a b amount an bn)
  show ?thesis
  proof (cases "amount \<le> 0 \<or> get_balance_tx s a < amount")
    case True
    then have "exec s (clk, c) = s"
      using Transfer by (cases "amount \<le> 0") (simp_all add: transfer_rejects transfer_insufficient)
    then show ?thesis by (rule disjI1)
  next
    case False
    then have ok: "0 < amount" "amount \<le> get_balance_tx s a" by auto
    then have "exec s (clk, c) = transfer_commit clk s a b amount an bn"
      using Transfer by (simp add: transfer_commits)
    with ok show ?thesis by blast
  qed
next
  case (MarkRefund uid cid amount)
  show ?thesis
  proof (cases "find (\<lambda>p. p_charge_id p = cid \<and> p_user_id p = uid) (payments s)")
    case None
    with MarkRefund have "exec s (clk, c) = s" by (simp add: mark_refund_cases)
    then show ?thesis by (rule disjI1)
  next
    case (Some row)
    show ?thesis
    proof (cases "exec s (clk, c) = s")
      case True
      then show ?thesis by (rule disjI1)
    next
      case False
      with MarkRefund Some have
        "amount \<le> get_balance_tx s uid" "user_exists s uid" "cid \<notin> tx_charges s"
        "exec s (clk, c) = refund_commit clk s uid cid amount (p_id row)"
        by (auto simp: mark_refund_cases list_ex_tx_charges split: if_splits)
      with Some show ?thesis by blast
    qed
  qed
qed

lemma tx_charges_ensure [simp]: "tx_charges (ensure_user_tx now s uid un) = tx_charges s"
  by (simp add: tx_charges_def)

lemma pay_charges_ensure [simp]: "pay_charges (ensure_user_tx now s uid un) = pay_charges s"
  by (simp add: pay_charges_def)

lemma ledger_sum_ensure [simp]: "ledger_sum (ensure_user_tx now s uid un) v = ledger_sum s v"
  by (simp add: ledger_sum_def)

lemma ledger_sum_append:
  "transactions s' = transactions s @ rows \<Longrightarrow>
   ledger_sum s' v = ledger_sum s v + sum_list (map signed_amount (filter (\<lambda>t. t_user_id t = v) rows))"
  by (simp add: ledger_sum_def)

lemma ledger_sum_purchase:
  "ledger_sum (purchase_commit clk s uid un amount cid) v =
     ledger_sum s v + (if v = uid then amount else 0)"
  by (simp add: ledger_sum_append[OF purchase_commit_transactions] signed_amount_def)

lemma ledger_sum_transfer:
  "ledger_sum (transfer_commit clk s a b amount an bn) v =
     ledger_sum s v - (if v = a then amount else 0) + (if v = b then amount else 0)"
  by (simp add: ledger_sum_append[OF transfer_commit_transactions] signed_amount_def)

lemma ledger_sum_refund:
  "ledger_sum (refund_commit clk s uid cid amount pid) v =
     ledger_sum s v - (if v = uid then amount else 0)"
  by (simp add: ledger_sum_append[OF refund_commit_transactions] signed_amount_def)

lemma find_pay_charge:
  "find (\<lambda>p. p_charge_id p = cid \<and> p_user_id p = uid) (payments s) = Some row \<Longrightarrow>
   cid \<in> pay_charges s"
  by (auto simp: pay_charges_def dest!: find_Some_set)

lemma charges_agree_exec: "charges_agree s \<Longrightarrow> charges_agree (exec s (clk, c))"
  using exec_result[of s clk c]
  by (auto simp: charges_agree_def pay_charges_purchase tx_charges_purchase
      pay_charges_transfer tx_charges_transfer pay_charges_refund tx_charges_refund
      dest: find_pay_charge)

lemma balanced_exec: "balanced s \<Longrightarrow> balanced (exec s (clk, c))"
  using exec_result[of s clk c]
  by (auto simp: balanced_def purchase_commit_balance ledger_sum_purchase
      transfer_commit_balance ledger_sum_transfer refund_commit_balance ledger_sum_refund)

lemma ids_fresh_ensure: "ids_fresh s \<Longrightarrow> ids_fresh (ensure_user_tx now s uid un)"
  by (simp add: ids_fresh_def)

lemma ids_fresh_purchase: "ids_fresh s \<Longrightarrow> ids_fresh (purchase_commit clk s uid un amount cid)"
  by (force simp: ids_fresh_def purchase_commit_transactions purchase_commit_tables)

lemma ids_fresh_transfer: "ids_fresh s \<Longrightarrow> ids_fresh (transfer_commit clk s a b amount an bn)"
  by (force simp: ids_fresh_def transfer_commit_transactions transfer_commit_tables)

lemma ids_fresh_refund: "ids_fresh s \<Longrightarrow> ids_fresh (refund_commit clk s uid cid amount pid)"
  by (force simp: ids_fresh_def refund_commit_transactions refund_commit_tables)

lemma ids_fresh_exec: "ids_fresh s \<Longrightarrow> ids_fresh (exec s (clk, c))"
  using exec_result[of s clk c]
  by (auto simp: ids_fresh_ensure ids_fresh_purchase ids_fresh_transfer ids_fresh_refund)

lemma charges_agree_run: "charges_agree s \<Longrightarrow> charges_agree (run s history)"
  unfolding run_def by (induction history arbitrary: s) (auto simp: charges_agree_exec)

lemma balanced_run: "balanced s \<Longrightarrow> balanced (run s history)"
  unfolding run_def by (induction history arbitrary: s) (auto simp: balanced_exec)

lemma ids_fresh_run: "ids_fresh s \<Longrightarrow> ids_fresh (run s history)"
  unfolding run_def by (induction history arbitrary: s) (auto simp: ids_fresh_exec)

lemma init_db_invariants: "charges_agree init_db" "balanced init_db" "ids_fresh init_db"
  by (simp_all add: charges_agree_def balanced_def ids_fresh_def init_db_def tx_charges_def
      pay_charges_def get_balance_tx_def find_user_def ledger_sum_def)

lemma pay_charges_exec: "pay_charges s \<subseteq> pay_charges (exec s (clk, c))"
  using exec_result[of s clk c]
  by (auto simp: pay_charges_purchase pay_charges_transfer pay_charges_refund)

lemma pay_charges_run: "pay_charges s \<subseteq> pay_charges (run s history)"
  unfolding run_def
proof (induction history arbitrary: s)
  case Nil
  show ?case by simp
next
  case (Cons step history)
  obtain clk c where step: "step = (clk, c)" by (cases step)
  have "pay_charges s \<subseteq> pay_charges (exec s step)"
    unfolding step by (rule pay_charges_exec)
  also have "\<dots> \<subseteq> pay_charges (foldl exec (exec s step) history)"
    by (rule Cons.IH)
  finally show ?case by simp
qed

section \<open>Purchases are credited once\<close>

lemma add_purchase_duplicate:
  "cid \<in> pay_charges s \<Longrightarrow> add_purchase clk s uid un amount cid = (Inr False, s)"
  by (simp add: add_purchase_cases list_ex_pay_charges)

lemma add_purchase_fresh:
  assumes "charges_agree s" and "cid \<notin> pay_charges s"
  shows "add_purchase clk s uid un amount cid =
           (Inr True, purchase_commit clk s uid un amount cid)"
  using assms
  by (simp add: add_purchase_cases list_ex_pay_charges list_ex_tx_charges charges_agree_def)

text \<open>
  Claim C1. After any history, a purchase whose charge id is not yet in \<^verbatim>\<open>payments\<close>
  returns \<^verbatim>\<open>True\<close>, adds exactly one payment row (not refunded) and one \<^verbatim>\<open>purchase\<close>
  ledger row, and raises the account's balance by the amount. From then on, whatever
  calls come in between, every \<^verbatim>\<open>add_purchase\<close> with that charge id returns \<^verbatim>\<open>False\<close> and
  leaves the whole store as it found it.
\<close>

theorem add_purchase_idempotent:
  assumes "cid \<notin> pay_charges (run init_db history)"
  shows "\<exists>s' row entry.
           add_purchase clk (run init_db history) uid un amount cid = (Inr True, s') \<and>
           payments s' = payments (run init_db history) @ [row] \<and>
           p_charge_id row = cid \<and> p_user_id row = uid \<and> p_amount row = amount \<and>
           \<not> p_refunded row \<and>
           transactions s' = transactions (run init_db history) @ [entry] \<and>
           t_type entry = Purchase \<and> t_user_id entry = uid \<and> t_amount entry = amount \<and>
           t_charge_id entry = Some cid \<and>
           get_balance_tx s' uid = get_balance_tx (run init_db history) uid + amount \<and>
           (\<forall>later clk' uid' un' amount'.
              add_purchase clk' (run s' later) uid' un' amount' cid = (Inr False, run s' later))"
proof -
  let ?s = "run init_db history"
  let ?s' = "purchase_commit clk ?s uid un amount cid"
  have agree: "charges_agree ?s"
    by (rule charges_agree_run) (rule init_db_invariants)
  have first: "add_purchase clk ?s uid un amount cid = (Inr True, ?s')"
    using agree assms by (rule add_purchase_fresh)
  have known: "cid \<in> pay_charges (run ?s' later)" for later
    using pay_charges_run[of ?s' later] by (auto simp: pay_charges_purchase)
  have again: "add_purchase clk' (run ?s' later) uid' un' amount' cid = (Inr False, run ?s' later)"
    for later clk' uid' un' amount'
    using known by (rule add_purchase_duplicate)
  define row where
    "row = \<lparr>p_id = Suc (seq_payments ?s), p_user_id = uid, p_amount = amount,
             p_currency = ''XTR'', p_charge_id = cid, p_refunded = False,
             p_created_at = clk 1\<rparr>"
  define entry where
    "entry = \<lparr>t_id = Suc (seq_transactions ?s), t_user_id = uid, t_type = Purchase,
               t_amount = amount, t_related_user_id = None, t_charge_id = Some cid,
               t_description = Some PurchaseText,
               t_balance_after = Some (get_balance_tx ?s' uid), t_created_at = clk 3\<rparr>"
  have pay: "payments ?s' = payments ?s @ [row]"
    unfolding row_def by (rule purchase_commit_tables)
  have led: "transactions ?s' = transactions ?s @ [entry]"
    unfolding entry_def by (rule purchase_commit_transactions)
  have fields:
    "p_charge_id row = cid" "p_user_id row = uid" "p_amount row = amount" "\<not> p_refunded row"
    "t_type entry = Purchase" "t_user_id entry = uid" "t_amount entry = amount"
    "t_charge_id entry = Some cid"
    by (simp_all add: row_def entry_def)
  have bal: "get_balance_tx ?s' uid = get_balance_tx ?s uid + amount"
    by (simp add: purchase_commit_balance)
  show ?thesis
    apply (rule exI[of _ ?s'])
    apply (rule exI[of _ row])
    apply (rule exI[of _ entry])
    using first pay led fields bal again
    apply simp
    done
qed

theorem add_purchase_idempotent_witness:
  "\<exists>s' row entry.
     add_purchase demo_clk demo_db 1 None 250 ''chg3'' = (Inr True, s') \<and>
     payments s' = payments demo_db @ [row] \<and>
     p_charge_id row = ''chg3'' \<and> p_user_id row = 1 \<and> p_amount row = 250 \<and>
     \<not> p_refunded row \<and>
     transactions s' = transactions demo_db @ [entry] \<and>
     t_type entry = Purchase \<and> t_user_id entry = 1 \<and> t_amount entry = 250 \<and>
     t_charge_id entry = Some ''chg3'' \<and>
     get_balance_tx s' 1 = 290 \<and>
     add_purchase still_clk s' 1 None 250 ''chg3'' = (Inr False, s')"
proof -
  have fresh: "''chg3'' \<notin> pay_charges (run init_db demo_history)"
    by (simp add: demo_db_reached pay_charges_def demo_db_def)
  obtain s' row entry where
    *: "add_purchase demo_clk demo_db 1 None 250 ''chg3'' = (Inr True, s')"
       "payments s' = payments demo_db @ [row]"
       "p_charge_id row = ''chg3''" "p_user_id row = 1" "p_amount row = 250" "\<not> p_refunded row"
       "transactions s' = transactions demo_db @ [entry]"
       "t_type entry = Purchase" "t_user_id entry = 1" "t_amount entry = 250"
       "t_charge_id entry = Some ''chg3''"
       "get_balance_tx s' 1 = get_balance_tx demo_db 1 + 250"
       and later: "\<And>later clk' uid' un' amount'.
          add_purchase clk' (run s' later) uid' un' amount' ''chg3'' = (Inr False, run s' later)"
    using add_purchase_idempotent [OF fresh, of demo_clk 1 None 250]
    unfolding demo_db_reached by blast
  have "add_purchase still_clk s' 1 None 250 ''chg3'' = (Inr False, s')"
    using later[of still_clk "[]" 1 None 250] by (simp add: run_def)
  with * show ?thesis by (auto simp: demo_db_balances)
qed

text \<open>
  The ledger row of a refund carries the charge id of the purchase, which the unique
  index \<^verbatim>\<open>idx_transactions_charge_id\<close> already holds from the purchase's own ledger row.
  So after a history of calls to the methods no refund returns \<^verbatim>\<open>True\<close>: a call that
  passes the four checks raises \<^verbatim>\<open>IntegrityError\<close> from its last statement.
\<close>

lemma refund_never_commits:
  "fst (mark_refund clk (run init_db history) uid cid amount) \<noteq> Inr True"
proof -
  let ?s = "run init_db history"
  have agree: "charges_agree ?s"
    by (rule charges_agree_run) (rule init_db_invariants)
  show ?thesis
  proof (cases "find (\<lambda>p. p_charge_id p = cid \<and> p_user_id p = uid) (payments ?s)")
    case None
    then show ?thesis by (simp add: mark_refund_cases)
  next
    case (Some row)
    then have "cid \<in> tx_charges ?s"
      using agree find_pay_charge[OF Some] by (simp add: charges_agree_def)
    with Some show ?thesis
      by (simp add: mark_refund_cases list_ex_tx_charges)
  qed
qed

section \<open>The ledger replays to the balance\<close>

lemma exec_appends:
  "\<exists>new. transactions (exec s (clk, c)) = transactions s @ new \<and>
     (\<forall>e\<in>set new. t_balance_after e = Some (get_balance_tx (exec s (clk, c)) (t_user_id e)))"
proof -
  consider
      (same) "transactions (exec s (clk, c)) = transactions s"
    | (purchase) uid un amount cid where
        "exec s (clk, c) = purchase_commit clk s uid un amount cid"
    | (transfer) a b amount an bn where
        "exec s (clk, c) = transfer_commit clk s a b amount an bn"
    | (refund) uid cid amount pid where
        "exec s (clk, c) = refund_commit clk s uid cid amount pid"
    using exec_result[of s clk c] by auto
  then show ?thesis
  proof cases
    case same
    then show ?thesis by simp
  next
    case purchase
    show ?thesis unfolding purchase
      by (subst purchase_commit_transactions) simp
  next
    case transfer
    show ?thesis unfolding transfer
      by (subst transfer_commit_transactions) simp
  next
    case refund
    show ?thesis unfolding refund
      by (subst refund_commit_transactions) simp
  qed
qed

text \<open>
  Claim C2. After any history, the stored balance of every account is the sum of its
  signed ledger amounts (\<^verbatim>\<open>purchase\<close> and \<^verbatim>\<open>gift_in\<close> count positive, \<^verbatim>\<open>gift_out\<close> and
  \<^verbatim>\<open>refund\<close> negative; an account without a row has balance 0). And every ledger row a
  call writes carries, as \<^verbatim>\<open>balance_after\<close>, the balance its account has in the store the
  call commits.
\<close>

theorem ledger_replay:
  "get_balance_tx (run init_db history) v = ledger_sum (run init_db history) v \<and>
   (\<exists>new. transactions (exec (run init_db history) (clk, c)) =
             transactions (run init_db history) @ new \<and>
      (\<forall>e\<in>set new.
         t_balance_after e =
           Some (get_balance_tx (exec (run init_db history) (clk, c)) (t_user_id e))))"
proof
  have "balanced (run init_db history)"
    by (rule balanced_run) (rule init_db_invariants)
  then show "get_balance_tx (run init_db history) v = ledger_sum (run init_db history) v"
    by (simp add: balanced_def)
next
  show "\<exists>new. transactions (exec (run init_db history) (clk, c)) =
             transactions (run init_db history) @ new \<and>
      (\<forall>e\<in>set new.
         t_balance_after e =
           Some (get_balance_tx (exec (run init_db history) (clk, c)) (t_user_id e)))"
    by (rule exec_appends)
qed

theorem ledger_replay_witness:
  "ledger_sum demo_db 1 = 40 \<and> ledger_sum demo_db 2 = 110 \<and>
   (\<exists>new. transactions (exec demo_db (still_clk, Transfer 1 2 10 None None)) =
             transactions demo_db @ new \<and> length new = 2 \<and>
      (\<forall>e\<in>set new.
         t_balance_after e =
           Some (get_balance_tx (exec demo_db (still_clk, Transfer 1 2 10 None None))
                   (t_user_id e))))"
proof -
  have len: "length (transactions (exec demo_db (still_clk, Transfer 1 2 10 None None))) =
             length (transactions demo_db) + 2"
    by (simp add: transfer_commits demo_db_balances transfer_commit_transactions)
  show ?thesis
    using ledger_replay [of demo_history 1 still_clk "Transfer 1 2 10 None None"]
      ledger_replay [of demo_history 2 still_clk "Transfer 1 2 10 None None"] len
    by (auto simp: demo_db_reached demo_db_balances)
qed

section \<open>Reading a balance\<close>






section \<open>Ensuring an account\<close>

lemma find_user_ensure_other:
  "v \<noteq> uid \<Longrightarrow> find_user (ensure_user_tx now s uid un) v = find_user s v"
proof (cases "user_exists s uid")
  case True
  assume "v \<noteq> uid"
  have "map_option (\<lambda>u. if u_user_id u = uid
                         then u\<lparr>u_username := coalesce un (u_username u), u_updated_at := now\<rparr>
                         else u)
          (find (\<lambda>u. u_user_id u = v) (users s)) = find (\<lambda>u. u_user_id u = v) (users s)"
    using \<open>v \<noteq> uid\<close>
    by (cases "find (\<lambda>u. u_user_id u = v) (users s)") (auto dest: find_user_id)
  with True show ?thesis
    by (simp add: ensure_user_tx_def find_user_def find_user_map_name)
next
  case False
  assume "v \<noteq> uid"
  with False show ?thesis
    by (simp add: ensure_user_tx_def find_user_def find_append_case split: option.splits)
qed

lemma find_user_ensure_same:
  "find_user s uid = Some u \<Longrightarrow>
   find_user (ensure_user_tx now s uid un) uid =
     Some (u\<lparr>u_username := coalesce un (u_username u), u_updated_at := now\<rparr>)"
proof -
  assume found: "find_user s uid = Some u"
  then have "user_exists s uid"
    using find_user_None_iff[of s uid] by simp
  moreover have "u_user_id u = uid"
    using found by (auto simp: find_user_def dest: find_user_id)
  ultimately show ?thesis
    using found by (simp add: ensure_user_tx_def find_user_def find_user_map_name)
qed

lemma coalesce_twice: "coalesce a (coalesce a b) = coalesce a b"
  by (simp add: coalesce_def split: option.splits)

lemma coalesce_same: "coalesce a a = a"
  by (simp add: coalesce_def split: option.splits)

lemma ensure_user_tx_names:
  assumes "u \<in> set (users (ensure_user_tx now s uid un))" and "u_user_id u = uid"
  shows "coalesce un (u_username u) = u_username u"
proof (cases "user_exists s uid")
  case True
  with assms obtain x where "x \<in> set (users s)"
    and "u = x\<lparr>u_username := coalesce un (u_username x), u_updated_at := now\<rparr>"
    by (auto simp: ensure_user_tx_def split: if_splits)
  then show ?thesis by (simp add: coalesce_twice)
next
  case False
  with assms have "u = \<lparr>u_user_id = uid, u_username = un, u_balance = 0,
                         u_created_at = now, u_updated_at = now\<rparr>"
    by (auto simp: ensure_user_tx_def user_exists_ids)
  then show ?thesis by (simp add: coalesce_same)
qed

lemma ensure_user_tx_twice:
  "users (ensure_user_tx now' (ensure_user_tx now s uid un) uid un) =
     map (\<lambda>u. if u_user_id u = uid then u\<lparr>u_updated_at := now'\<rparr> else u)
       (users (ensure_user_tx now s uid un))"
proof -
  let ?s1 = "ensure_user_tx now s uid un"
  have "users (ensure_user_tx now' ?s1 uid un) =
        map (\<lambda>u. if u_user_id u = uid
                  then u\<lparr>u_username := coalesce un (u_username u), u_updated_at := now'\<rparr>
                  else u) (users ?s1)"
    by (simp add: ensure_user_tx_def[of now' ?s1])
  also have "\<dots> = map (\<lambda>u. if u_user_id u = uid then u\<lparr>u_updated_at := now'\<rparr> else u) (users ?s1)"
    by (rule map_cong) (simp_all add: ensure_user_tx_names)
  finally show ?thesis .
qed

text \<open>
  Claim C5, as the code has it. \<^verbatim>\<open>ensure_user\<close> adds a row with balance 0 for an id that
  has none. For an id that has a row it replaces the name exactly when the new name is
  not NULL (\<^verbatim>\<open>None\<close>): \<^verbatim>\<open>COALESCE\<close> looks at NULL only, so an empty string replaces a
  known name too. It changes no balance, no other account and no other table, and a
  second call with the same arguments changes nothing but \<^verbatim>\<open>updated_at\<close>.
\<close>

theorem ensure_user_upsert:
  "fst (ensure_user clk s uid un) = Inr () \<and>
   (\<not> user_exists s uid \<longrightarrow>
      users (snd (ensure_user clk s uid un)) =
        users s @ [\<lparr>u_user_id = uid, u_username = un, u_balance = 0,
                     u_created_at = clk 0, u_updated_at = clk 0\<rparr>]) \<and>
   (\<forall>u. find_user s uid = Some u \<longrightarrow>
      find_user (snd (ensure_user clk s uid un)) uid =
        Some (u\<lparr>u_username := (case un of None \<Rightarrow> u_username u | Some n \<Rightarrow> Some n),
                u_updated_at := clk 0\<rparr>)) \<and>
   (\<forall>v. v \<noteq> uid \<longrightarrow> find_user (snd (ensure_user clk s uid un)) v = find_user s v) \<and>
   (\<forall>v. get_balance_tx (snd (ensure_user clk s uid un)) v = get_balance_tx s v) \<and>
   payments (snd (ensure_user clk s uid un)) = payments s \<and>
   transfers (snd (ensure_user clk s uid un)) = transfers s \<and>
   transactions (snd (ensure_user clk s uid un)) = transactions s \<and>
   users (snd (ensure_user clk' (snd (ensure_user clk s uid un)) uid un)) =
     map (\<lambda>u. if u_user_id u = uid then u\<lparr>u_updated_at := clk' 0\<rparr> else u)
       (users (snd (ensure_user clk s uid un)))"
proof (intro conjI impI allI)
  show "fst (ensure_user clk s uid un) = Inr ()" by (simp add: ensure_user_def)
next
  assume "\<not> user_exists s uid"
  then show "users (snd (ensure_user clk s uid un)) =
        users s @ [\<lparr>u_user_id = uid, u_username = un, u_balance = 0,
                     u_created_at = clk 0, u_updated_at = clk 0\<rparr>]"
    by (simp add: ensure_user_def ensure_user_tx_def)
next
  fix u assume "find_user s uid = Some u"
  then show "find_user (snd (ensure_user clk s uid un)) uid =
        Some (u\<lparr>u_username := (case un of None \<Rightarrow> u_username u | Some n \<Rightarrow> Some n),
                u_updated_at := clk 0\<rparr>)"
    by (simp add: ensure_user_def find_user_ensure_same coalesce_def split: option.splits)
next
  fix v assume "v \<noteq> uid"
  then show "find_user (snd (ensure_user clk s uid un)) v = find_user s v"
    by (simp add: ensure_user_def find_user_ensure_other)
next
  fix v show "get_balance_tx (snd (ensure_user clk s uid un)) v = get_balance_tx s v"
    by (simp add: ensure_user_def)
next
  show "users (snd (ensure_user clk' (snd (ensure_user clk s uid un)) uid un)) =
     map (\<lambda>u. if u_user_id u = uid then u\<lparr>u_updated_at := clk' 0\<rparr> else u)
       (users (snd (ensure_user clk s uid un)))"
    by (simp add: ensure_user_def ensure_user_tx_twice)
qed (simp_all add: ensure_user_def)

text \<open>Account 1 is known as "alice"; a call with the empty string as name leaves it
  with the empty name.\<close>

theorem ensure_user_empty_name_counterexample:
  "map u_username (users demo_db) = [Some ''alice'', None] \<and>
   map u_username (users (snd (ensure_user demo_clk demo_db 1 (Some '''')))) = [Some '''', None]"
  by (simp add: ensure_user_def ensure_user_tx_def demo_db_def user_exists_def coalesce_def)

theorem ensure_user_upsert_witness:
  "\<not> user_exists demo_db 3 \<and>
   users (snd (ensure_user demo_clk demo_db 3 (Some ''carol''))) =
     users demo_db @ [\<lparr>u_user_id = 3, u_username = Some ''carol'', u_balance = 0,
                       u_created_at = 100, u_updated_at = 100\<rparr>] \<and>
   find_user (snd (ensure_user demo_clk demo_db 1 None)) 1 =
     Some \<lparr>u_user_id = 1, u_username = Some ''alice'', u_balance = 40,
           u_created_at = 100, u_updated_at = 100\<rparr> \<and>
   find_user (snd (ensure_user demo_clk demo_db 1 (Some ''al''))) 1 =
     Some \<lparr>u_user_id = 1, u_username = Some ''al'', u_balance = 40,
           u_created_at = 100, u_updated_at = 100\<rparr> \<and>
   find_user (snd (ensure_user demo_clk demo_db 1 (Some ''al''))) 2 = find_user demo_db 2"
proof -
  have absent: "\<not> user_exists demo_db 3"
    by (simp add: user_exists_def demo_db_def)
  have row: "find_user demo_db 1 =
      Some \<lparr>u_user_id = 1, u_username = Some ''alice'', u_balance = 40,
            u_created_at = 100, u_updated_at = 100\<rparr>"
    by (simp add: find_user_def demo_db_def)
  show ?thesis
    using ensure_user_upsert [of demo_clk demo_db 3 "Some ''carol''" demo_clk]
      ensure_user_upsert [of demo_clk demo_db 1 None demo_clk]
      ensure_user_upsert [of demo_clk demo_db 1 "Some ''al''" demo_clk]
      absent row
    by (simp add: demo_clk_def)
qed

section \<open>Refunds\<close>

text \<open>
  Claim C4, as the code has it. \<^verbatim>\<open>mark_refund\<close> answers each of its four failed checks (no
  payment row for this account and charge id, row already refunded, amount different
  from the recorded one, balance below the amount) with the one value \<^verbatim>\<open>False\<close>, and
  \<^verbatim>\<open>False\<close> is returned in exactly these cases. Whenever the call does not return
  \<^verbatim>\<open>True\<close>, the store is the one it started from.
\<close>

theorem mark_refund_failures:
  "(refund_row s uid cid = None \<longrightarrow> mark_refund clk s uid cid amount = (Inr False, s)) \<and>
   (\<forall>row. refund_row s uid cid = Some row \<and> p_refunded row \<longrightarrow>
      mark_refund clk s uid cid amount = (Inr False, s)) \<and>
   (\<forall>row. refund_row s uid cid = Some row \<and> p_amount row \<noteq> amount \<longrightarrow>
      mark_refund clk s uid cid amount = (Inr False, s)) \<and>
   (\<forall>row. refund_row s uid cid = Some row \<and> get_balance_tx s uid < amount \<longrightarrow>
      mark_refund clk s uid cid amount = (Inr False, s)) \<and>
   (fst (mark_refund clk s uid cid amount) = Inr False \<longleftrightarrow>
      refund_precondition_fails s uid cid amount) \<and>
   (fst (mark_refund clk s uid cid amount) \<noteq> Inr True \<longrightarrow>
      snd (mark_refund clk s uid cid amount) = s)"
  by (auto simp: mark_refund_cases refund_row_def refund_precondition_fails_def
      split: option.splits)

text \<open>Four calls, one for each failed check; every one returns \<^verbatim>\<open>False\<close> and nothing
  else, so the caller cannot tell them apart. The last store is the worked one with
  payment 2 flagged as refunded by hand.\<close>

theorem mark_refund_same_answer_counterexample:
  "refund_row demo_db 1 ''nope'' = None \<and>
   mark_refund demo_clk demo_db 1 ''nope'' 100 = (Inr False, demo_db) \<and>
   map_option p_amount (refund_row demo_db 1 ''chg1'') = Some 100 \<and>
   mark_refund demo_clk demo_db 1 ''chg1'' 50 = (Inr False, demo_db) \<and>
   get_balance_tx demo_db 1 = 40 \<and>
   mark_refund demo_clk demo_db 1 ''chg1'' 100 = (Inr False, demo_db) \<and>
   map_option p_refunded (refund_row (set_refunded demo_db 2) 2 ''chg2'') = Some True \<and>
   mark_refund demo_clk (set_refunded demo_db 2) 2 ''chg2'' 50 =
     (Inr False, set_refunded demo_db 2)"
  by (simp add: mark_refund_cases refund_row_def demo_db_balances demo_db_def set_refunded_def
      get_balance_tx_def find_user_def)

theorem mark_refund_failures_witness:
  "refund_row demo_db 1 ''nope'' = None \<and>
   mark_refund demo_clk demo_db 1 ''nope'' 100 = (Inr False, demo_db) \<and>
   mark_refund demo_clk demo_db 1 ''chg1'' 50 = (Inr False, demo_db) \<and>
   mark_refund demo_clk demo_db 1 ''chg1'' 100 = (Inr False, demo_db) \<and>
   refund_precondition_fails demo_db 1 ''chg1'' 100 \<and>
   \<not> refund_precondition_fails demo_db 2 ''chg2'' 50 \<and>
   mark_refund demo_clk demo_db 2 ''chg2'' 50 = (Inl IntegrityError, demo_db)"
proof -
  have none: "refund_row demo_db 1 ''nope'' = None"
    by (simp add: refund_row_def demo_db_def)
  have row: "refund_row demo_db 1 ''chg1'' =
      Some \<lparr>p_id = 1, p_user_id = 1, p_amount = 100, p_currency = ''XTR'',
            p_charge_id = ''chg1'', p_refunded = False, p_created_at = 101\<rparr>"
    by (simp add: refund_row_def demo_db_def)
  have row2: "refund_row demo_db 2 ''chg2'' =
      Some \<lparr>p_id = 2, p_user_id = 2, p_amount = 50, p_currency = ''XTR'',
            p_charge_id = ''chg2'', p_refunded = False, p_created_at = 101\<rparr>"
    by (simp add: refund_row_def demo_db_def)
  have ok2: "\<not> refund_precondition_fails demo_db 2 ''chg2'' 50"
    by (simp add: refund_precondition_fails_def row2 demo_db_balances)
  have raised: "mark_refund demo_clk demo_db 2 ''chg2'' 50 = (Inl IntegrityError, demo_db)"
  proof -
    have "list_ex (\<lambda>t. t_charge_id t = Some ''chg2'') (transactions demo_db)"
      by (simp add: demo_db_def)
    then show ?thesis
      using row2 by (simp add: mark_refund_cases refund_row_def demo_db_balances)
  qed
  show ?thesis
    using mark_refund_failures [of demo_db 1 "''nope''" demo_clk 100]
      mark_refund_failures [of demo_db 1 "''chg1''" demo_clk 50]
      mark_refund_failures [of demo_db 1 "''chg1''" demo_clk 100]
      mark_refund_failures [of demo_db 2 "''chg2''" demo_clk 50]
      none row ok2 raised
    by (simp add: demo_db_balances refund_precondition_fails_def prod_eq_iff)
qed

section \<open>Paging through the ledger\<close>

lemma pages_concat: "concat (map (\<lambda>k. take m (drop (m * k) xs)) [0..<n]) = take (m * n) xs"
proof (induction n)
  case 0
  show ?case by simp
next
  case (Suc n)
  have "m * Suc n = m * n + m" by simp
  then have "take (m * Suc n) xs = take (m * n) xs @ take m (drop (m * n) xs)"
    by (simp only: take_add)
  with Suc show ?case by simp
qed

lemma tx_order_key_less: "tx_order_key x < tx_order_key y \<Longrightarrow> newer_first x y"
  by (auto simp: tx_order_key_def newer_first_def less_prod_def)

lemma tx_order_key_inj:
  assumes "tx_order_key x = tx_order_key y"
  shows "t_id x = t_id y"
proof -
  have "snd (tx_order_key x) = snd (tx_order_key y)" using assms by (rule arg_cong)
  then show ?thesis unfolding tx_order_key_def snd_conv by linarith
qed

lemma distinct_tx_keys:
  assumes "distinct (map t_id xs)"
  shows "distinct (map tx_order_key xs)"
proof -
  have ids: "inj_on t_id (set xs)" and xs: "distinct xs"
    using assms by (simp_all add: distinct_map)
  have "inj_on tx_order_key (set xs)"
  proof (rule inj_onI)
    fix x y assume x: "x \<in> set xs" and y: "y \<in> set xs"
      and keys: "tx_order_key x = tx_order_key y"
    from keys have "t_id x = t_id y" by (rule tx_order_key_inj)
    with ids show "x = y" using x y by (rule inj_onD)
  qed
  with xs show ?thesis by (simp add: distinct_map)
qed

lemma sorted_newer_first:
  assumes "distinct (map t_id xs)"
  shows "sorted_wrt newer_first (sort_key tx_order_key xs)"
proof -
  let ?ys = "sort_key tx_order_key xs"
  have "distinct (map t_id ?ys)"
    using assms by (simp add: distinct_map)
  then have "distinct (map tx_order_key ?ys)" by (rule distinct_tx_keys)
  moreover have "sorted (map tx_order_key ?ys)" by simp
  ultimately have "sorted_wrt (<) (map tx_order_key ?ys)"
    by (simp add: strict_sorted_iff)
  then have "sorted_wrt (\<lambda>x y. tx_order_key x < tx_order_key y) ?ys"
    by (simp add: sorted_wrt_map)
  then show ?thesis
    by (rule sorted_wrt_mono_rel[rotated]) (rule tx_order_key_less)
qed

lemma sorted_wrt_limit_offset:
  "sorted_wrt P xs \<Longrightarrow> sorted_wrt P (sql_limit_offset limit offset xs)"
  by (simp add: sql_limit_offset_def Let_def sorted_wrt_take sorted_wrt_drop)

lemma set_limit_offset: "set (sql_limit_offset limit offset xs) \<subseteq> set xs"
  by (auto simp: sql_limit_offset_def Let_def dest: in_set_takeD in_set_dropD)

lemma all_pages_take:
  "all_pages s uid n =
     take (20 * n) (sort_key tx_order_key (filter (\<lambda>t. t_user_id t = uid) (transactions s)))"
proof -
  let ?rows = "sort_key tx_order_key (filter (\<lambda>t. t_user_id t = uid) (transactions s))"
  have page: "fst (get_transactions s uid 20 (20 * int k)) = take 20 (drop (20 * k) ?rows)" for k
  proof -
    have "nat (20 * int k) = 20 * k" by (simp add: nat_mult_distrib)
    then show ?thesis
      by (simp add: get_transactions_def sql_limit_offset_def)
  qed
  show ?thesis
    unfolding all_pages_def page by (rule pages_concat)
qed


lemma run_distinct_ids: "distinct (map t_id (transactions (run init_db history)))"
  using ids_fresh_run[OF init_db_invariants(3), of history] by (simp add: ids_fresh_def)

text \<open>
  Claim C7. On a store whose ledger ids are distinct (the primary key; every history
  gives such a store), \<^verbatim>\<open>get_transactions\<close> changes nothing and returns rows of the
  account only, each strictly before the next in the order (created_at descending, then
  id descending). Once the pages of 20 cover the account's row count, their
  concatenation holds exactly the account's rows, each once, as many as
  \<^verbatim>\<open>count_transactions\<close> says, in that same strict order.
\<close>

theorem get_transactions_pages:
  assumes "distinct (map t_id (transactions s))"
  shows "snd (get_transactions s uid limit offset) = s \<and>
         sorted_wrt newer_first (fst (get_transactions s uid limit offset)) \<and>
         set (fst (get_transactions s uid limit offset)) \<subseteq>
           {t \<in> set (transactions s). t_user_id t = uid} \<and>
         (fst (count_transactions s uid) \<le> 20 * int n \<longrightarrow>
            mset (all_pages s uid n) =
              mset (filter (\<lambda>t. t_user_id t = uid) (transactions s)) \<and>
            int (length (all_pages s uid n)) = fst (count_transactions s uid) \<and>
            distinct (all_pages s uid n) \<and>
            sorted_wrt newer_first (all_pages s uid n))"
proof -
  let ?mine = "filter (\<lambda>t. t_user_id t = uid) (transactions s)"
  let ?rows = "sort_key tx_order_key ?mine"
  have ids: "distinct (map t_id ?mine)"
    using assms by (rule distinct_map_filter)
  have sorted: "sorted_wrt newer_first ?rows"
    using ids by (rule sorted_newer_first)
  have page: "fst (get_transactions s uid limit offset) = sql_limit_offset limit offset ?rows"
    by (simp add: get_transactions_def)
  have one: "sorted_wrt newer_first (fst (get_transactions s uid limit offset))"
    unfolding page using sorted by (rule sorted_wrt_limit_offset)
  have two: "set (fst (get_transactions s uid limit offset)) \<subseteq>
               {t \<in> set (transactions s). t_user_id t = uid}"
    unfolding page using set_limit_offset[of limit offset ?rows] by auto
  have all: "all_pages s uid n = ?rows" if "fst (count_transactions s uid) \<le> 20 * int n"
  proof -
    from that have "length ?rows \<le> 20 * n"
      by (simp add: count_transactions_def)
    then show ?thesis by (simp add: all_pages_take)
  qed
  have three: "mset (all_pages s uid n) = mset ?mine \<and>
      int (length (all_pages s uid n)) = fst (count_transactions s uid) \<and>
      distinct (all_pages s uid n) \<and> sorted_wrt newer_first (all_pages s uid n)"
    if "fst (count_transactions s uid) \<le> 20 * int n"
  proof -
    have "distinct ?mine" using ids by (simp add: distinct_map)
    then show ?thesis
      unfolding all[OF that] using sorted by (simp add: count_transactions_def)
  qed
  show ?thesis
    using one two three by (simp add: get_transactions_def)
qed


theorem get_transactions_pages_witness:
  "distinct (map t_id (transactions demo_db)) \<and>
   fst (count_transactions demo_db 2) = 2 \<and>
   map t_id (all_pages demo_db 2 1) = [4, 3] \<and>
   sorted_wrt newer_first (all_pages demo_db 2 1) \<and>
   distinct (all_pages demo_db 2 1) \<and>
   mset (all_pages demo_db 2 1) =
     mset (filter (\<lambda>t. t_user_id t = 2) (transactions demo_db))"
proof -
  have ids: "distinct (map t_id (transactions demo_db))"
    by (simp add: demo_db_def)
  have cnt: "fst (count_transactions demo_db 2) = 2"
    by (simp add: count_transactions_def demo_db_def)
  have order: "map t_id (all_pages demo_db 2 1) = [4, 3]"
    by (simp add: all_pages_def get_transactions_def sql_limit_offset_def demo_db_def
        tx_order_key_def less_eq_prod_def)
  show ?thesis
    using get_transactions_pages [OF ids, of 2 20 0 1] ids cnt order by simp
qed

section \<open>The refundable payment\<close>

lemma sort_key_head:
  assumes "sort_key f xs = y # ys"
  shows "y \<in> set xs \<and> (\<forall>x\<in>set xs. f y \<le> f x)"
proof -
  have "sorted (map f (y # ys))"
    using sorted_sort_key[of f xs] by (simp only: assms)
  moreover have "set xs = set (y # ys)"
    using set_sort[of f xs] by (simp only: assms)
  ultimately show ?thesis by auto
qed

lemma get_payment_for_amount_eq:
  "fst (get_payment_for_amount scan s uid amount) =
     (case sort_key (\<lambda>p. - int (p_created_at p)) (filter (refundable uid amount) (scan (payments s))) of
        [] \<Rightarrow> None | row # rest \<Rightarrow> Some row)"
proof -
  have "(\<lambda>p. p_user_id p = uid \<and> p_amount p = amount \<and> \<not> p_refunded p) = refundable uid amount"
    by (simp add: refundable_def fun_eq_iff)
  then show ?thesis
    by (simp add: get_payment_for_amount_def sql_limit_offset_def split: list.splits)
qed

text \<open>
  Claim C9. Whatever order the engine gives to rows of equal \<^verbatim>\<open>created_at\<close>,
  \<^verbatim>\<open>get_payment_for_amount\<close> changes nothing; it returns nothing exactly when the account
  has no payment of that amount that is not refunded; and a row it returns is such a
  payment of the account, not refunded, and none of them is younger.
\<close>

theorem get_payment_for_amount_latest:
  assumes "mset (scan (payments s)) = mset (payments s)"
  shows "snd (get_payment_for_amount scan s uid amount) = s \<and>
         (fst (get_payment_for_amount scan s uid amount) = None \<longleftrightarrow>
            \<not> list_ex (refundable uid amount) (payments s)) \<and>
         (\<forall>row. fst (get_payment_for_amount scan s uid amount) = Some row \<longrightarrow>
            row \<in> set (payments s) \<and> refundable uid amount row \<and>
            (\<forall>p\<in>set (payments s). refundable uid amount p \<longrightarrow>
               p_created_at p \<le> p_created_at row))"
proof -
  let ?f = "\<lambda>p. - int (p_created_at p)"
  let ?cands = "filter (refundable uid amount) (scan (payments s))"
  have same: "set (scan (payments s)) = set (payments s)"
    using assms by (rule mset_eq_setD)
  have cands: "set ?cands = {p \<in> set (payments s). refundable uid amount p}"
    using same by auto
  have none: "fst (get_payment_for_amount scan s uid amount) = None \<longleftrightarrow>
      \<not> list_ex (refundable uid amount) (payments s)"
  proof -
    have "fst (get_payment_for_amount scan s uid amount) = None \<longleftrightarrow> sort_key ?f ?cands = []"
      by (simp add: get_payment_for_amount_eq split: list.splits)
    also have "\<dots> \<longleftrightarrow> set ?cands = {}"
      by (metis set_empty set_sort)
    also have "\<dots> \<longleftrightarrow> \<not> list_ex (refundable uid amount) (payments s)"
      unfolding cands by (auto simp: list_ex_iff)
    finally show ?thesis .
  qed
  have some: "row \<in> set (payments s) \<and> refundable uid amount row \<and>
      (\<forall>p\<in>set (payments s). refundable uid amount p \<longrightarrow> p_created_at p \<le> p_created_at row)"
    if "fst (get_payment_for_amount scan s uid amount) = Some row" for row
  proof -
    from that obtain rest where "sort_key ?f ?cands = row # rest"
      by (auto simp: get_payment_for_amount_eq split: list.splits)
    then have "row \<in> set ?cands" and "\<forall>x\<in>set ?cands. ?f row \<le> ?f x"
      using sort_key_head[of ?f ?cands row rest] by blast+
    then show ?thesis unfolding cands by auto
  qed
  show ?thesis
    using none some by (simp add: get_payment_for_amount_def)
qed


lemma second_purchase_payments:
  "payments second_purchase_db =
     payments demo_db @
       [\<lparr>p_id = 3, p_user_id = 1, p_amount = 100, p_currency = ''XTR'',
         p_charge_id = ''chg3'', p_refunded = False, p_created_at = 201\<rparr>]"
  by (simp add: second_purchase_db_def add_purchase_def Let_def ensure_user_tx_def
      user_exists_def insert_payment_def push_payment_def update_balance_def
      insert_transaction_def push_transaction_def new_transaction_def late_clk_def
      demo_db_def)

theorem get_payment_for_amount_latest_witness:
  "mset (rev (payments second_purchase_db)) = mset (payments second_purchase_db) \<and>
   snd (get_payment_for_amount rev second_purchase_db 1 100) = second_purchase_db \<and>
   map_option p_id (fst (get_payment_for_amount rev second_purchase_db 1 100)) = Some 3 \<and>
   map_option p_id (fst (get_payment_for_amount id second_purchase_db 1 100)) = Some 3 \<and>
   fst (get_payment_for_amount rev second_purchase_db 1 70) = None \<and>
   \<not> list_ex (refundable 1 70) (payments second_purchase_db)"
proof -
  have perm: "mset (rev (payments second_purchase_db)) = mset (payments second_purchase_db)"
    by simp
  have a: "map_option p_id (fst (get_payment_for_amount rev second_purchase_db 1 100)) = Some 3"
    by (simp add: get_payment_for_amount_def sql_limit_offset_def second_purchase_payments
        demo_db_def)
  have b: "map_option p_id (fst (get_payment_for_amount id second_purchase_db 1 100)) = Some 3"
    by (simp add: get_payment_for_amount_def sql_limit_offset_def second_purchase_payments
        demo_db_def)
  have c: "\<not> list_ex (refundable 1 70) (payments second_purchase_db)"
    by (simp add: second_purchase_payments demo_db_def refundable_def)
  show ?thesis
    using get_payment_for_amount_latest [of rev second_purchase_db 1 100]
      get_payment_for_amount_latest [of rev second_purchase_db 1 70] perm a b c
    by simp
qed

section \<open>The highest balances\<close>






end
